theory Spec2Isabelle
  imports Complex_Main "HOL-Library.AList" "HOL-Library.Sublist"
begin

section \<open>Errors\<close>

text \<open>
  The source raises plain \<^verbatim>\<open>Error\<close> objects that differ only in their message, and the
  JavaScript runtime raises \<^verbatim>\<open>TypeError\<close> and \<^verbatim>\<open>SyntaxError\<close>. Every raise is a value
  here. The constructors carry the names the specification gives to the messages:
  \<^item> \<open>UnsupportedRoot\<close>: "Can't cut unsupported JSON (need to begin with [ or { ) ...";
  \<^item> \<open>UnterminatedStructure\<close>: "Can't cut unsupported JSON (no matching closing bracket found)";
  \<^item> \<open>NoDocumentFound\<close>: "Unable to find JSON!";
  \<^item> \<open>InvalidDescriptor m\<close>: the five messages "Invalid continuation array", "Invalid apiKey",
    "Invalid token", "Invalid context", "Invalid options", kept as \<open>m\<close>;
  \<^item> \<open>BudgetMismatch\<close>: "continueRequest only allowed for paged requests";
  \<^item> \<open>MissingQuery\<close>, \<open>InvalidQueryType\<close>, \<open>MissingSearchTermInFilterLink\<close>: the three
    messages of \<^verbatim>\<open>checkArgs\<close>;
  \<^item> \<open>TransportError\<close>: the request client rejects (no response text).
\<close>

datatype error =
    UnsupportedRoot
  | UnterminatedStructure
  | TypeError
  | SyntaxError
  | TransportError
  | NoDocumentFound
  | UpstreamError string
  | InvalidDescriptor string
  | BudgetMismatch
  | MissingQuery
  | InvalidQueryType
  | MissingSearchTermInFilterLink

text \<open>Sequencing: the first raise ends the computation.\<close>

definition bindE :: "error + 'a \<Rightarrow> ('a \<Rightarrow> error + 'b) \<Rightarrow> error + 'b" where
  "bindE m f = (case m of Inl e \<Rightarrow> Inl e | Inr x \<Rightarrow> f x)"

lemma bindE_Inl [simp]: "bindE (Inl e) f = Inl e"
  by (simp add: bindE_def)

lemma bindE_Inr [simp]: "bindE (Inr x) f = f x"
  by (simp add: bindE_def)

lemma bindE_cong [fundef_cong]:
  assumes "m = m'" and "\<And>x. m' = Inr x \<Longrightarrow> f x = f' x"
  shows "bindE m f = bindE m' f'"
  using assms by (cases m') (simp_all add: bindE_def)

section \<open>The bracket scanner \<^verbatim>\<open>cutAfterJSON\<close>\<close>

text \<open>
  A JavaScript string is a sequence of code units; \<^typ>\<open>string\<close> stands for it, one
  \<^typ>\<open>char\<close> per code unit. The two characters that cannot be written inside a string
  literal of the theory get names.
\<close>

definition dquote :: char where
  "dquote = CHR 0x22"

definition backslash :: char where
  "backslash = CHR 0x5C"

text \<open>
  The \<^verbatim>\<open>for\<close> loop of \<^verbatim>\<open>cutAfterJSON\<close>: the characters still to read, the index \<open>i\<close> of the
  first of them, and the three loop variables. The loop ends by returning at index \<open>i\<close>
  (\<open>Found i\<close>) or by running off the end of the string with the counter it then has.
\<close>

datatype scan_result = Found nat | Exhausted int

fun cutAfterJSON_loop ::
  "char \<Rightarrow> char \<Rightarrow> bool \<Rightarrow> bool \<Rightarrow> int \<Rightarrow> nat \<Rightarrow> string \<Rightarrow> scan_result" where
  "cutAfterJSON_loop opn cls isString isEscaped counter i [] = Exhausted counter"
| "cutAfterJSON_loop opn cls isString isEscaped counter i (c # cs) =
     (if c = dquote \<and> \<not> isEscaped
      then cutAfterJSON_loop opn cls (\<not> isString) isEscaped counter (i + 1) cs
      else let isEscaped' = (c = backslash \<and> \<not> isEscaped) in
        if isString then cutAfterJSON_loop opn cls isString isEscaped' counter (i + 1) cs
        else let counter' = (if c = opn then counter + 1
                             else if c = cls then counter - 1 else counter) in
          if counter' = 0 then Found i
          else cutAfterJSON_loop opn cls isString isEscaped' counter' (i + 1) cs)"

text \<open>The choice of \<^verbatim>\<open>open\<close> and \<^verbatim>\<open>close\<close> from \<^verbatim>\<open>mixedJson[0]\<close>; \<open>None\<close> when \<^verbatim>\<open>open\<close> stays unset.\<close>

definition bracket_pair :: "string \<Rightarrow> (char \<times> char) option" where
  "bracket_pair mixedJson =
     (case mixedJson of
        [] \<Rightarrow> None
      | c # _ \<Rightarrow> if c = CHR ''['' then Some (CHR ''['', CHR '']'')
                 else if c = CHR ''{'' then Some (CHR ''{'', CHR ''}'')
                 else None)"

definition cutAfterJSON :: "string \<Rightarrow> error + string" where
  "cutAfterJSON mixedJson =
     (case bracket_pair mixedJson of
        None \<Rightarrow> Inl UnsupportedRoot
      | Some (opn, cls) \<Rightarrow>
          (case cutAfterJSON_loop opn cls False False 0 0 mixedJson of
             Found i \<Rightarrow> Inr (take (i + 1) mixedJson)
           | Exhausted _ \<Rightarrow> Inl UnterminatedStructure))"

subsection \<open>Well-formed JSON texts\<close>

text \<open>
  What "a well-formed JSON value" and "its text" mean, after the JSON grammar (RFC 8259):
  a syntax tree that records every character of the text, the function \<open>text_of\<close> that
  writes the tree out, and the conditions \<open>wf_jtext\<close> on its leaves. A string is a list of
  items: an unescaped character, a two-character escape, or \<^verbatim>\<open>\u\<close> and four hex digits. A
  number keeps its sign, integer part, fraction and exponent. Arrays and objects keep the
  whitespace around every element; an empty array or object keeps the whitespace between
  its brackets.
\<close>

datatype jchar = Plain char | Escape char | Unicode char char char char

datatype jtext =
    TLiteral string
  | TNumber bool string "string option" "(char \<times> string \<times> string) option"
  | TString "jchar list"
  | TArray string "jelement list"
  | TObject string "jmember list"
and jelement = Element string jtext string
and jmember = Member string "jchar list" string jelement

fun jchar_text :: "jchar \<Rightarrow> string" where
  "jchar_text (Plain c) = [c]"
| "jchar_text (Escape c) = [backslash, c]"
| "jchar_text (Unicode a b c d) = [backslash, CHR ''u'', a, b, c, d]"

definition string_text :: "jchar list \<Rightarrow> string" where
  "string_text cs = dquote # concat (map jchar_text cs) @ [dquote]"

fun separated :: "string list \<Rightarrow> string" where
  "separated [] = []"
| "separated [x] = x"
| "separated (x # y # ys) = x @ CHR '','' # separated (y # ys)"

fun text_of :: "jtext \<Rightarrow> string"
  and element_text :: "jelement \<Rightarrow> string"
  and member_text :: "jmember \<Rightarrow> string" where
  "text_of (TLiteral s) = s"
| "text_of (TNumber neg ip fr ex) =
     (if neg then ''-'' else '''') @ ip
     @ (case fr of None \<Rightarrow> '''' | Some f \<Rightarrow> CHR ''.'' # f)
     @ (case ex of None \<Rightarrow> '''' | Some (e, sg, ds) \<Rightarrow> e # sg @ ds)"
| "text_of (TString cs) = string_text cs"
| "text_of (TArray w es) =
     CHR ''['' # (if es = [] then w else separated (map element_text es)) @ '']''"
| "text_of (TObject w ms) =
     CHR ''{'' # (if ms = [] then w else separated (map member_text ms)) @ ''}''"
| "element_text (Element w1 v w2) = w1 @ text_of v @ w2"
| "member_text (Member w1 k w2 e) = w1 @ string_text k @ w2 @ CHR '':'' # element_text e"

definition is_ws :: "string \<Rightarrow> bool" where
  "is_ws w = list_all (\<lambda>c. c \<in> set [CHR 0x20, CHR 0x09, CHR 0x0A, CHR 0x0D]) w"

definition is_digits :: "string \<Rightarrow> bool" where
  "is_digits ds = (ds \<noteq> [] \<and> list_all (\<lambda>c. c \<in> set ''0123456789'') ds)"

fun wf_jchar :: "jchar \<Rightarrow> bool" where
  "wf_jchar (Plain c) = (c \<noteq> dquote \<and> c \<noteq> backslash \<and> (0x20::nat) \<le> of_char c)"
| "wf_jchar (Escape c) =
     (c \<in> set [dquote, backslash, CHR ''/'', CHR ''b'', CHR ''f'', CHR ''n'', CHR ''r'', CHR ''t''])"
| "wf_jchar (Unicode a b c d) =
     list_all (\<lambda>h. h \<in> set ''0123456789abcdefABCDEF'') [a, b, c, d]"

fun wf_jtext :: "jtext \<Rightarrow> bool"
  and wf_element :: "jelement \<Rightarrow> bool"
  and wf_member :: "jmember \<Rightarrow> bool" where
  "wf_jtext (TLiteral s) = (s \<in> set [''true'', ''false'', ''null''])"
| "wf_jtext (TNumber neg ip fr ex) =
     ((ip = ''0'' \<or> (is_digits ip \<and> hd ip \<noteq> CHR ''0''))
      \<and> (case fr of None \<Rightarrow> True | Some f \<Rightarrow> is_digits f)
      \<and> (case ex of None \<Rightarrow> True
          | Some (e, sg, ds) \<Rightarrow>
              e \<in> set ''eE'' \<and> sg \<in> set ['''', ''+'', ''-''] \<and> is_digits ds))"
| "wf_jtext (TString cs) = list_all wf_jchar cs"
| "wf_jtext (TArray w es) = (is_ws w \<and> list_all wf_element es)"
| "wf_jtext (TObject w ms) = (is_ws w \<and> list_all wf_member ms)"
| "wf_element (Element w1 v w2) = (is_ws w1 \<and> wf_jtext v \<and> is_ws w2)"
| "wf_member (Member w1 k w2 e) =
     (is_ws w1 \<and> list_all wf_jchar k \<and> is_ws w2 \<and> wf_element e)"

text \<open>The values \<^verbatim>\<open>cutAfterJSON\<close> is meant for: arrays and objects.\<close>

fun is_root :: "jtext \<Rightarrow> bool" where
  "is_root (TArray w es) = True"
| "is_root (TObject w ms) = True"
| "is_root _ = False"

text \<open>
  The specification's reading of the root test, "the first non-whitespace character":
  the first character of the input that is not JSON whitespace, if there is one.
\<close>

definition spec_first_non_whitespace :: "string \<Rightarrow> char option" where
  "spec_first_non_whitespace s =
     (case dropWhile (\<lambda>c. c \<in> set [CHR 0x20, CHR 0x09, CHR 0x0A, CHR 0x0D]) s of
        [] \<Rightarrow> None
      | c # _ \<Rightarrow> Some c)"

text \<open>Notions of the proofs about the scanner.\<close>

definition passes :: "char \<Rightarrow> char \<Rightarrow> string \<Rightarrow> bool" where
  "passes opn cls t = (\<forall>n i rest. 0 < n \<longrightarrow>
     cutAfterJSON_loop opn cls False False n i (t @ rest) =
     cutAfterJSON_loop opn cls False False n (i + length t) rest)"

definition inert :: "char \<Rightarrow> bool" where
  "inert c = (c \<notin> set [dquote, backslash, CHR ''['', CHR '']'', CHR ''{'', CHR ''}''])"

definition root_pair :: "char \<Rightarrow> char \<Rightarrow> bool" where
  "root_pair opn cls =
     ((opn = CHR ''['' \<and> cls = CHR '']'') \<or> (opn = CHR ''{'' \<and> cls = CHR ''}''))"

section \<open>JavaScript values\<close>

text \<open>
  The values the code handles are the ones a JSON document decodes to, together with
  \<^verbatim>\<open>undefined\<close> and the three numbers that are not finite. A number that is finite is a
  rational here, and the arithmetic on it is exact. The numbers of the code are doubles; the
  one operation the code computes with is the subtraction of a count from a budget, which
  is exact on doubles as long as the budget is at most \<open>2\<^sup>5\<^sup>3\<close>, so a theorem that depends on
  what is left of a finite budget assumes this bound. An object is
  the list of its own properties in the order the engine enumerates them, without
  prototype and without sharing: two places of a decoded document never hold the same
  object.
\<close>

datatype jsnum = Fin rat | PInf | NInf | NaN

datatype jsval =
    JUndefined
  | JNull
  | JBool bool
  | JNum jsnum
  | JStr string
  | JArr "jsval list"
  | JObj "(string \<times> jsval) list"

text \<open>\<^verbatim>\<open>!!v\<close>, \<^verbatim>\<open>typeof v\<close> and \<^verbatim>\<open>Array.isArray(v)\<close>.\<close>

fun truthy :: "jsval \<Rightarrow> bool" where
  "truthy JUndefined = False"
| "truthy JNull = False"
| "truthy (JBool b) = b"
| "truthy (JNum n) = (n \<noteq> Fin 0 \<and> n \<noteq> NaN)"
| "truthy (JStr s) = (s \<noteq> [])"
| "truthy (JArr xs) = True"
| "truthy (JObj kvs) = True"

fun typeof :: "jsval \<Rightarrow> string" where
  "typeof JUndefined = ''undefined''"
| "typeof JNull = ''object''"
| "typeof (JBool b) = ''boolean''"
| "typeof (JNum n) = ''number''"
| "typeof (JStr s) = ''string''"
| "typeof (JArr xs) = ''object''"
| "typeof (JObj kvs) = ''object''"

fun isArray :: "jsval \<Rightarrow> bool" where
  "isArray (JArr xs) = True"
| "isArray _ = False"

text \<open>The own property \<open>k\<close> in a list of properties, \<^verbatim>\<open>undefined\<close> where there is none.\<close>

definition lookup :: "(string \<times> jsval) list \<Rightarrow> string \<Rightarrow> jsval" where
  "lookup kvs k = (case map_of kvs k of None \<Rightarrow> JUndefined | Some v \<Rightarrow> v)"

text \<open>
  Reading a property \<^verbatim>\<open>v.k\<close>: a \<^verbatim>\<open>TypeError\<close> on \<^verbatim>\<open>undefined\<close> and \<^verbatim>\<open>null\<close>, the own property
  of an object, \<^verbatim>\<open>undefined\<close> where there is none. Of the properties an array or a string
  has by itself only \<^verbatim>\<open>length\<close> is kept; the code reads none of the others by name.
\<close>

fun get_prop :: "jsval \<Rightarrow> string \<Rightarrow> error + jsval" where
  "get_prop JUndefined k = Inl TypeError"
| "get_prop JNull k = Inl TypeError"
| "get_prop (JObj kvs) k = Inr (lookup kvs k)"
| "get_prop (JArr xs) k =
     Inr (if k = ''length'' then JNum (Fin (of_nat (length xs))) else JUndefined)"
| "get_prop (JStr s) k =
     Inr (if k = ''length'' then JNum (Fin (of_nat (length s))) else JUndefined)"
| "get_prop (JBool b) k = Inr JUndefined"
| "get_prop (JNum n) k = Inr JUndefined"

text \<open>A chain of reads \<^verbatim>\<open>v.a.b.c\<close>, which stops at the first \<^verbatim>\<open>TypeError\<close>.\<close>

fun get_path :: "jsval \<Rightarrow> string list \<Rightarrow> error + jsval" where
  "get_path v [] = Inr v"
| "get_path v (k # ks) = bindE (get_prop v k) (\<lambda>w. get_path w ks)"

text \<open>
  The assignment \<^verbatim>\<open>v.k = x\<close>, as the new value of \<open>v\<close>: a \<^verbatim>\<open>TypeError\<close> on \<^verbatim>\<open>undefined\<close> and
  \<^verbatim>\<open>null\<close>; on an object the property is replaced where it stands or added last; on a
  primitive the assignment is dropped (the modules are not in strict mode). A named
  property stored on an array has no place in \<^typ>\<open>jsval\<close> and is dropped as well: the
  theorems below that depend on a stored property are about objects. A property whose
  name is an array index, which the engine enumerates ahead of the other properties, is
  added last like any other; no theorem below depends on the place of such a property.
\<close>

fun set_prop :: "jsval \<Rightarrow> string \<Rightarrow> jsval \<Rightarrow> error + jsval" where
  "set_prop JUndefined k x = Inl TypeError"
| "set_prop JNull k x = Inl TypeError"
| "set_prop (JObj kvs) k x = Inr (JObj (AList.update k x kvs))"
| "set_prop (JArr xs) k x = Inr (JArr xs)"
| "set_prop (JStr s) k x = Inr (JStr s)"
| "set_prop (JBool b) k x = Inr (JBool b)"
| "set_prop (JNum n) k x = Inr (JNum n)"

text \<open>\<^verbatim>\<open>xs[i]\<close> on an array: \<^verbatim>\<open>undefined\<close> out of range.\<close>

definition array_index :: "jsval list \<Rightarrow> nat \<Rightarrow> jsval" where
  "array_index xs i = (if i < length xs then xs ! i else JUndefined)"

text \<open>
  \<^verbatim>\<open>Object.prototype.hasOwnProperty.call(v, k)\<close> and the test \<^verbatim>\<open>Object.keys(v)[0] === k\<close>, for
  the renderer names \<open>k\<close> the code asks about (none of them is an index or \<^verbatim>\<open>length\<close>).
  Both raise a \<^verbatim>\<open>TypeError\<close> on \<^verbatim>\<open>undefined\<close> and \<^verbatim>\<open>null\<close>.
\<close>

fun hasOwnProperty :: "jsval \<Rightarrow> string \<Rightarrow> error + bool" where
  "hasOwnProperty JUndefined k = Inl TypeError"
| "hasOwnProperty JNull k = Inl TypeError"
| "hasOwnProperty (JObj kvs) k = Inr (k \<in> set (map fst kvs))"
| "hasOwnProperty (JArr xs) k = Inr (k = ''length'')"
| "hasOwnProperty (JStr s) k = Inr (k = ''length'')"
| "hasOwnProperty (JBool b) k = Inr False"
| "hasOwnProperty (JNum n) k = Inr False"

fun first_key_is :: "jsval \<Rightarrow> string \<Rightarrow> error + bool" where
  "first_key_is JUndefined k = Inl TypeError"
| "first_key_is JNull k = Inl TypeError"
| "first_key_is (JObj kvs) k = Inr (case kvs of [] \<Rightarrow> False | (k', _) # _ \<Rightarrow> k' = k)"
| "first_key_is (JArr xs) k = Inr (xs \<noteq> [] \<and> k = ''0'')"
| "first_key_is (JStr s) k = Inr (s \<noteq> [] \<and> k = ''0'')"
| "first_key_is (JBool b) k = Inr False"
| "first_key_is (JNum n) k = Inr False"

text \<open>
  The array methods the code calls exist on arrays only: calling \<^verbatim>\<open>find\<close>, \<^verbatim>\<open>filter\<close>,
  \<^verbatim>\<open>map\<close>, \<^verbatim>\<open>forEach\<close> or \<^verbatim>\<open>push\<close> on anything else is a \<^verbatim>\<open>TypeError\<close>. Iterating with
  \<^verbatim>\<open>for ... of\<close> and spreading with \<^verbatim>\<open>...\<close> additionally accept a string, whose elements are
  its characters.
\<close>

fun array_of :: "jsval \<Rightarrow> error + jsval list" where
  "array_of (JArr xs) = Inr xs"
| "array_of _ = Inl TypeError"

fun iterable_of :: "jsval \<Rightarrow> error + jsval list" where
  "iterable_of (JArr xs) = Inr xs"
| "iterable_of (JStr s) = Inr (map (\<lambda>c. JStr [c]) s)"
| "iterable_of _ = Inl TypeError"

text \<open>\<^verbatim>\<open>map\<close>, \<^verbatim>\<open>filter\<close> and \<^verbatim>\<open>find\<close> with a callback that may raise: left to right, the first raise ends the call.\<close>

fun mapE :: "('a \<Rightarrow> error + 'b) \<Rightarrow> 'a list \<Rightarrow> error + 'b list" where
  "mapE f [] = Inr []"
| "mapE f (x # xs) = bindE (f x) (\<lambda>y. bindE (mapE f xs) (\<lambda>ys. Inr (y # ys)))"

fun filterE :: "('a \<Rightarrow> error + bool) \<Rightarrow> 'a list \<Rightarrow> error + 'a list" where
  "filterE p [] = Inr []"
| "filterE p (x # xs) =
     bindE (p x) (\<lambda>b. bindE (filterE p xs) (\<lambda>ys. Inr (if b then x # ys else ys)))"

fun findE :: "(jsval \<Rightarrow> error + bool) \<Rightarrow> jsval list \<Rightarrow> error + jsval" where
  "findE p [] = Inr JUndefined"
| "findE p (x # xs) = bindE (p x) (\<lambda>b. if b then Inr x else findE p xs)"

text \<open>\<^verbatim>\<open>Object.assign(target, source)\<close> on property lists, and the own properties \<^verbatim>\<open>Object.assign\<close> copies from a source (none from \<^verbatim>\<open>undefined\<close>, \<^verbatim>\<open>null\<close>, a boolean or a number; index-named properties of arrays and strings are not modelled).\<close>

definition assign :: "(string \<times> jsval) list \<Rightarrow> (string \<times> jsval) list \<Rightarrow> (string \<times> jsval) list" where
  "assign target source = foldl (\<lambda>t (k, v). AList.update k v t) target source"

fun own_props :: "jsval \<Rightarrow> (string \<times> jsval) list" where
  "own_props (JObj kvs) = kvs"
| "own_props _ = []"

text \<open>
  \<^verbatim>\<open>JSON.parse(JSON.stringify(v))\<close> on a value that is not \<^verbatim>\<open>undefined\<close>: \<^verbatim>\<open>undefined\<close> properties
  are dropped, \<^verbatim>\<open>undefined\<close> array elements and numbers that are not finite become \<^verbatim>\<open>null\<close>.
\<close>

fun json_clone :: "jsval \<Rightarrow> jsval" where
  "json_clone JUndefined = JNull"
| "json_clone JNull = JNull"
| "json_clone (JBool b) = JBool b"
| "json_clone (JNum (Fin n)) = JNum (Fin n)"
| "json_clone (JNum PInf) = JNull"
| "json_clone (JNum NInf) = JNull"
| "json_clone (JNum NaN) = JNull"
| "json_clone (JStr s) = JStr s"
| "json_clone (JArr xs) = JArr (map json_clone xs)"
| "json_clone (JObj kvs) =
     JObj (map (\<lambda>(k, v). (k, json_clone v)) (filter (\<lambda>(k, v). v \<noteq> JUndefined) kvs))"

subsection \<open>Numbers\<close>

text \<open>The comparisons \<^verbatim>\<open><\<close> and \<^verbatim>\<open><=\<close> on numbers (false whenever a side is \<^verbatim>\<open>NaN\<close>) and the subtraction of a count.\<close>

fun num_less :: "jsnum \<Rightarrow> jsnum \<Rightarrow> bool" where
  "num_less (Fin a) (Fin b) = (a < b)"
| "num_less (Fin a) PInf = True"
| "num_less NInf (Fin b) = True"
| "num_less NInf PInf = True"
| "num_less _ _ = False"

definition num_le :: "jsnum \<Rightarrow> jsnum \<Rightarrow> bool" where
  "num_le a b = (a \<noteq> NaN \<and> b \<noteq> NaN \<and> (a = b \<or> num_less a b))"

fun num_minus :: "jsnum \<Rightarrow> int \<Rightarrow> jsnum" where
  "num_minus (Fin a) n = Fin (a - of_int n)"
| "num_minus PInf n = PInf"
| "num_minus NInf n = NInf"
| "num_minus NaN n = NaN"

section \<open>Results and the environment\<close>

text \<open>
  What a continuation fetch returns, \<^verbatim>\<open>{continuation, items}\<close>, and what a search returns,
  which has these two fields among its seven.
\<close>

record page_result =
  continuation :: jsval
  items :: "jsval list"

record result = page_result +
  originalQuery :: jsval
  correctedQuery :: jsval
  results :: jsnum
  activeFilters :: "jsval list"
  refinements :: "jsval list"

text \<open>
  What the functions use and the sources do not hold, as parameters:
  \<^item> \<open>JSON_parse\<close>: \<^verbatim>\<open>JSON.parse\<close>, \<open>None\<close> where it raises a \<^verbatim>\<open>SyntaxError\<close>;
  \<^item> \<open>ToNumber_other\<close>: the language's conversion to a number of a string, an array or an
    object (the other values are converted by \<open>toNumber\<close> below);
  \<^item> \<open>ToString_other\<close>: the conversion to a string of a number, an array or an object;
  \<^item> \<open>URL_resolve\<close>: \<^verbatim>\<open>new URL(input, base).toString()\<close>, \<open>None\<close> where the constructor raises;
  \<^item> \<open>URL_parse\<close>: the \<^verbatim>\<open>pathname\<close> and the entries of \<^verbatim>\<open>searchParams\<close> of
    \<^verbatim>\<open>new URL(input, BASE_URL)\<close>, \<open>None\<close> where the constructor raises;
  \<^item> \<open>parseItem\<close>: the item mapper.

  Modelled from the spec: the item mapper \<^verbatim>\<open>./parseItem.js\<close> is a file of the repository that
  is not among the sources. The specification describes it as a collaborator that, "given
  one raw item record (and, for first-page items, the in-progress result accumulator for
  context), returns a normalized item or null if unrepresentable"; so it is a function of
  the raw item and, on the first page, of the accumulator, that returns a value and writes
  nothing.
\<close>

record env =
  JSON_parse :: "string \<Rightarrow> jsval option"
  ToNumber_other :: "jsval \<Rightarrow> jsnum"
  ToString_other :: "jsval \<Rightarrow> string"
  URL_resolve :: "jsval \<Rightarrow> string \<Rightarrow> string option"
  URL_parse :: "string \<Rightarrow> (string \<times> (string \<times> string) list) option"
  parseItem :: "jsval \<Rightarrow> result option \<Rightarrow> jsval"

fun toNumber :: "env \<Rightarrow> jsval \<Rightarrow> jsnum" where
  "toNumber env (JNum n) = n"
| "toNumber env JUndefined = NaN"
| "toNumber env JNull = Fin 0"
| "toNumber env (JBool b) = Fin (if b then 1 else 0)"
| "toNumber env v = ToNumber_other env v"

fun toString :: "env \<Rightarrow> jsval \<Rightarrow> string" where
  "toString env (JStr s) = s"
| "toString env JUndefined = ''undefined''"
| "toString env JNull = ''null''"
| "toString env (JBool b) = (if b then ''true'' else ''false'')"
| "toString env v = ToString_other env v"

definition isNaN :: "env \<Rightarrow> jsval \<Rightarrow> bool" where
  "isNaN env v = (toNumber env v = NaN)"

definition isFinite :: "env \<Rightarrow> jsval \<Rightarrow> bool" where
  "isFinite env v = (case toNumber env v of Fin n \<Rightarrow> True | _ \<Rightarrow> False)"

text \<open>\<^verbatim>\<open>xs.filter((_, index) => index < limit)\<close>.\<close>

definition filter_index_below :: "env \<Rightarrow> jsval \<Rightarrow> 'a list \<Rightarrow> 'a list" where
  "filter_index_below env limit xs =
     map snd (filter (\<lambda>(index, _). num_less (Fin (of_nat index)) (toNumber env limit))
                (enumerate 0 xs))"

text \<open>The elements of \<^verbatim>\<open>xs.join('')\<close>: \<^verbatim>\<open>undefined\<close> and \<^verbatim>\<open>null\<close> give the empty string.\<close>

definition join_empty :: "env \<Rightarrow> jsval list \<Rightarrow> string" where
  "join_empty env xs =
     concat (map (\<lambda>x. if x = JUndefined \<or> x = JNull then '''' else toString env x) xs)"

section \<open>The utilities\<close>

definition BASE_URL :: string where
  "BASE_URL = ''https://www.youtube.com/''"

definition DEFAULT_OPTIONS :: "(string \<times> jsval) list" where
  "DEFAULT_OPTIONS = [(''limit'', JNum (Fin 100)), (''safeSearch'', JBool False)]"

definition DEFAULT_QUERY :: "(string \<times> jsval) list" where
  "DEFAULT_QUERY = [(''gl'', JStr ''US''), (''hl'', JStr ''en'')]"

definition DEFAULT_CONTEXT_client :: "(string \<times> jsval) list" where
  "DEFAULT_CONTEXT_client =
     [(''utcOffsetMinutes'', JNum (Fin 0)), (''gl'', JStr ''US''), (''hl'', JStr ''en''),
      (''clientName'', JStr ''WEB''), (''clientVersion'', JStr ''<important information>'')]"

subsection \<open>\<^verbatim>\<open>parseText\<close>\<close>

definition parseText :: "env \<Rightarrow> jsval \<Rightarrow> jsval \<Rightarrow> error + jsval" where
  "parseText env tx def =
     (if typeof tx \<noteq> ''object'' then Inr def
      else bindE (get_prop tx ''simpleText'') (\<lambda>simpleText.
        if truthy simpleText then Inr simpleText
        else bindE (get_prop tx ''runs'') (\<lambda>runs.
          if isArray runs
          then bindE (array_of runs) (\<lambda>rs.
               bindE (mapE (\<lambda>a. get_prop a ''text'') rs) (\<lambda>ts.
               Inr (JStr (join_empty env ts))))
          else Inr def)))"

subsection \<open>\<^verbatim>\<open>parseWrapper\<close> and \<^verbatim>\<open>parsePage2Wrapper\<close>\<close>

text \<open>
  Both return \<^verbatim>\<open>{rawItems, continuation}\<close>, here the pair. In the older format \<^verbatim>\<open>rawItems\<close> is
  whatever \<^verbatim>\<open>itemSectionRenderer.contents\<close> holds, so it is a value; \<^verbatim>\<open>continuation\<close> is what
  \<^verbatim>\<open>find\<close> returns, \<^verbatim>\<open>undefined\<close> when no entry matches.
\<close>

definition grid_item :: "jsval \<Rightarrow> error + jsval" where
  "grid_item x =
     bindE (get_prop x ''richItemRenderer'') (\<lambda>item.
     bindE (if truthy item then Inr item else get_prop x ''richSectionRenderer'') (\<lambda>r.
     get_prop r ''content''))"

definition parseWrapper :: "jsval \<Rightarrow> error + (jsval \<times> jsval)" where
  "parseWrapper primaryContents =
     bindE (get_prop primaryContents ''sectionListRenderer'') (\<lambda>sectionListRenderer.
     if truthy sectionListRenderer
     then bindE (get_prop sectionListRenderer ''contents'') (\<lambda>contents.
          bindE (array_of contents) (\<lambda>xs.
          bindE (findE (\<lambda>x. first_key_is x ''itemSectionRenderer'') xs) (\<lambda>section.
          bindE (get_path section [''itemSectionRenderer'', ''contents'']) (\<lambda>rawItems.
          bindE (findE (\<lambda>x. first_key_is x ''continuationItemRenderer'') xs) (\<lambda>cont.
          Inr (rawItems, cont))))))
     else bindE (get_prop primaryContents ''richGridRenderer'') (\<lambda>richGridRenderer.
       if truthy richGridRenderer
       then bindE (get_prop richGridRenderer ''contents'') (\<lambda>contents.
            bindE (array_of contents) (\<lambda>xs.
            bindE (filterE (\<lambda>x. bindE (hasOwnProperty x ''continuationItemRenderer'')
                                   (\<lambda>b. Inr (\<not> b))) xs) (\<lambda>entries.
            bindE (mapE grid_item entries) (\<lambda>rawItems.
            bindE (findE (\<lambda>x. hasOwnProperty x ''continuationItemRenderer'') xs) (\<lambda>cont.
            Inr (JArr rawItems, cont))))))
       else Inr (JArr [], JNull)))"

fun parsePage2Wrapper_loop ::
  "jsval list \<Rightarrow> jsval list \<Rightarrow> jsval \<Rightarrow> error + (jsval list \<times> jsval)" where
  "parsePage2Wrapper_loop [] rawItems cont = Inr (rawItems, cont)"
| "parsePage2Wrapper_loop (ci # cits) rawItems cont =
     bindE (hasOwnProperty ci ''itemSectionRenderer'') (\<lambda>older.
     if older
     then bindE (get_path ci [''itemSectionRenderer'', ''contents'']) (\<lambda>contents.
          bindE (iterable_of contents) (\<lambda>new.
          parsePage2Wrapper_loop cits (rawItems @ new) cont))
     else bindE (hasOwnProperty ci ''richItemRenderer'') (\<lambda>item.
       if item
       then bindE (get_path ci [''richItemRenderer'', ''content'']) (\<lambda>content.
            parsePage2Wrapper_loop cits (rawItems @ [content]) cont)
       else bindE (hasOwnProperty ci ''richSectionRenderer'') (\<lambda>sect.
         if sect
         then bindE (get_path ci [''richSectionRenderer'', ''content'']) (\<lambda>content.
              parsePage2Wrapper_loop cits (rawItems @ [content]) cont)
         else bindE (hasOwnProperty ci ''continuationItemRenderer'') (\<lambda>marker.
           if marker then parsePage2Wrapper_loop cits rawItems ci
           else parsePage2Wrapper_loop cits rawItems cont))))"

definition parsePage2Wrapper :: "jsval \<Rightarrow> error + (jsval list \<times> jsval)" where
  "parsePage2Wrapper continuationItems =
     bindE (iterable_of continuationItems) (\<lambda>cits. parsePage2Wrapper_loop cits [] JNull)"

subsection \<open>\<^verbatim>\<open>parseFilters\<close>\<close>

text \<open>
  A \<^verbatim>\<open>Map\<close> is the list of its entries in insertion order. \<^verbatim>\<open>set\<close> replaces the value of a key
  that is there and adds a new key last. Keys are compared as \<^verbatim>\<open>Map\<close> compares them:
  primitives by value, objects and arrays by identity, and two objects that come from
  different places of a document are never identical.
\<close>

fun same_key :: "jsval \<Rightarrow> jsval \<Rightarrow> bool" where
  "same_key (JArr xs) k = False"
| "same_key (JObj kvs) k = False"
| "same_key k' k = (k' = k)"

fun map_set :: "jsval \<Rightarrow> 'v \<Rightarrow> (jsval \<times> 'v) list \<Rightarrow> (jsval \<times> 'v) list" where
  "map_set k v [] = [(k, v)]"
| "map_set k v ((k', v') # m) =
     (if same_key k' k then (k', v) # m else (k', v') # map_set k v m)"

text \<open>One group of the catalog: the \<^verbatim>\<open>Map\<close> of its filters and its \<^verbatim>\<open>active\<close> property.\<close>

record filter_group =
  active :: jsval
  entries :: "(jsval \<times> jsval) list"

text \<open>The object \<^verbatim>\<open>parsedFilter\<close> built from one filter, with \<^verbatim>\<open>isSet\<close>.\<close>

definition parse_filter :: "env \<Rightarrow> jsval \<Rightarrow> error + (bool \<times> jsval)" where
  "parse_filter env flt =
     bindE (get_path flt [''searchFilterRenderer'', ''navigationEndpoint'']) (\<lambda>endpoint.
     bindE (get_path flt [''searchFilterRenderer'', ''label'']) (\<lambda>label.
     bindE (parseText env label (JStr '''')) (\<lambda>name.
     bindE (if \<not> truthy endpoint then Inr JNull
            else bindE (get_path endpoint [''commandMetadata'', ''webCommandMetadata'', ''url''])
                   (\<lambda>u. case URL_resolve env u BASE_URL of
                           None \<Rightarrow> Inl TypeError
                         | Some s \<Rightarrow> Inr (JStr s))) (\<lambda>url.
     bindE (get_path flt [''searchFilterRenderer'', ''tooltip'']) (\<lambda>tooltip.
     Inr (\<not> truthy endpoint,
          JObj [(''name'', name), (''active'', JBool (\<not> truthy endpoint)),
                (''url'', url), (''description'', tooltip)]))))))"

fun parse_filters_loop :: "env \<Rightarrow> jsval list \<Rightarrow> filter_group \<Rightarrow> error + filter_group" where
  "parse_filters_loop env [] g = Inr g"
| "parse_filters_loop env (flt # flts) g =
     bindE (parse_filter env flt) (\<lambda>(isSet, parsedFilter).
     parse_filters_loop env flts
       \<lparr>active = (if isSet then parsedFilter else active g),
        entries = map_set (lookup (own_props parsedFilter) ''name'') parsedFilter (entries g)\<rparr>)"

fun parse_groups_loop ::
  "env \<Rightarrow> jsval list \<Rightarrow> (jsval \<times> filter_group) list \<Rightarrow> error + (jsval \<times> filter_group) list" where
  "parse_groups_loop env [] parsedGroups = Inr parsedGroups"
| "parse_groups_loop env (filterGroup # gs) parsedGroups =
     bindE (get_path filterGroup [''searchFilterGroupRenderer'', ''filters'']) (\<lambda>filters.
     bindE (array_of filters) (\<lambda>flts.
     bindE (parse_filters_loop env flts \<lparr>active = JNull, entries = []\<rparr>) (\<lambda>singleFilterGroup.
     bindE (get_path filterGroup [''searchFilterGroupRenderer'', ''title'']) (\<lambda>title.
     bindE (parseText env title (JStr ''Unknown Category'')) (\<lambda>name.
     parse_groups_loop env gs (map_set name singleFilterGroup parsedGroups))))))"

text \<open>
  The two places the groups are looked for: the inline submenu of the results container,
  \<^verbatim>\<open>(wrapper.subMenu || wrapper.submenu).searchSubMenuRenderer.groups\<close>, and the popup of the
  search header, \<^verbatim>\<open>popup.searchFilterOptionsDialogRenderer.groups\<close>.
\<close>

definition submenu_groups :: "jsval \<Rightarrow> error + jsval" where
  "submenu_groups doc =
     bindE (get_path doc [''contents'', ''twoColumnSearchResultsRenderer'', ''primaryContents''])
       (\<lambda>primaryContents.
     bindE (get_prop primaryContents ''sectionListRenderer'') (\<lambda>sectionListRenderer.
     bindE (if truthy sectionListRenderer then Inr sectionListRenderer
            else get_prop primaryContents ''richGridRenderer'') (\<lambda>wrapper.
     bindE (get_prop wrapper ''subMenu'') (\<lambda>subMenu.
     bindE (if truthy subMenu then Inr subMenu else get_prop wrapper ''submenu'') (\<lambda>menu.
     get_path menu [''searchSubMenuRenderer'', ''groups''])))))"

definition popup_groups :: "jsval \<Rightarrow> error + jsval" where
  "popup_groups doc =
     bindE (get_path doc [''header'', ''searchHeaderRenderer'', ''searchFilterButton'',
                          ''buttonRenderer'', ''command'', ''openPopupAction'', ''popup''])
       (\<lambda>popup.
     get_path popup [''searchFilterOptionsDialogRenderer'', ''groups''])"

definition parseFilters :: "env \<Rightarrow> jsval \<Rightarrow> error + (jsval \<times> filter_group) list" where
  "parseFilters env doc =
     bindE (submenu_groups doc) (\<lambda>groups.
     bindE (if groups = JUndefined
            then bindE (popup_groups doc) (\<lambda>popupGroups.
                 Inr (if truthy popupGroups then popupGroups else JArr []))
            else Inr groups) (\<lambda>filterWrapper.
     bindE (array_of filterWrapper) (\<lambda>gs.
     parse_groups_loop env gs [])))"

subsection \<open>\<^verbatim>\<open>between\<close>, \<^verbatim>\<open>jsonAfter\<close> and \<^verbatim>\<open>parseBody\<close>\<close>

text \<open>\<^verbatim>\<open>haystack.indexOf(needle)\<close>: the first position where \<open>needle\<close> starts, \<open>None\<close> for \<^verbatim>\<open>-1\<close>.\<close>

fun indexOf :: "string \<Rightarrow> string \<Rightarrow> nat option" where
  "indexOf [] needle = (if needle = [] then Some 0 else None)"
| "indexOf (c # cs) needle =
     (if prefix needle (c # cs) then Some 0 else map_option Suc (indexOf cs needle))"

definition between :: "string \<Rightarrow> string \<Rightarrow> string \<Rightarrow> string" where
  "between haystack left right =
     (case indexOf haystack left of
        None \<Rightarrow> ''''
      | Some start \<Rightarrow>
          (let haystack' = drop (start + length left) haystack in
           case indexOf haystack' right of
             None \<Rightarrow> ''''
           | Some e \<Rightarrow> take e haystack'))"

text \<open>
  \<^verbatim>\<open>jsonAfter\<close> returns \<^verbatim>\<open>null\<close> when the anchor is absent, and its \<^verbatim>\<open>try\<close> turns every raise of
  \<^verbatim>\<open>cutAfterJSON\<close> and of \<^verbatim>\<open>JSON.parse\<close> into \<^verbatim>\<open>null\<close>.
\<close>

definition jsonAfter :: "env \<Rightarrow> string \<Rightarrow> string \<Rightarrow> error + jsval" where
  "jsonAfter env haystack left =
     (case indexOf haystack left of
        None \<Rightarrow> Inr JNull
      | Some pos \<Rightarrow>
          (case bindE (cutAfterJSON (drop (pos + length left) haystack))
                  (\<lambda>cut. case JSON_parse env cut of
                            None \<Rightarrow> Inl SyntaxError
                          | Some v \<Rightarrow> Inr v) of
             Inl e \<Rightarrow> Inr JNull
           | Inr v \<Rightarrow> Inr v))"

text \<open>What \<^verbatim>\<open>parseBody\<close> returns: \<^verbatim>\<open>{json, apiKey, context}\<close>.\<close>

record parsed_body =
  json :: jsval
  apiKey :: jsval
  clientContext :: jsval

text \<open>The step \<^verbatim>\<open>if (options[key]) context.client[key] = options[key]\<close> of the loop over the three keys.\<close>

definition overlay_key ::
  "jsval \<Rightarrow> string \<Rightarrow> (string \<times> jsval) list \<Rightarrow> error + (string \<times> jsval) list" where
  "overlay_key options k client =
     bindE (get_prop options k) (\<lambda>v.
     Inr (if truthy v then AList.update k v client else client))"

definition parseBody :: "env \<Rightarrow> string \<Rightarrow> jsval \<Rightarrow> error + parsed_body" where
  "parseBody env body options0 =
     (let options = (if options0 = JUndefined then JObj [] else options0);
          doc = (case jsonAfter env body ''var ytInitialData = '' of
                   Inl e \<Rightarrow> JNull
                 | Inr v \<Rightarrow> v);
          key1 = between body (''INNERTUBE_API_KEY'' @ [dquote] @ '':'' @ [dquote]) [dquote];
          key = (if key1 \<noteq> [] then key1
                 else between body (''innertubeApiKey'' @ [dquote] @ '':'' @ [dquote]) [dquote]);
          version1 = between body
                       (''INNERTUBE_CONTEXT_CLIENT_VERSION'' @ [dquote] @ '':'' @ [dquote]) [dquote];
          clientVersion =
            (if version1 \<noteq> [] then version1
             else between body
                    (''innertube_context_client_version'' @ [dquote] @ '':'' @ [dquote]) [dquote]);
          client0 = AList.update ''clientVersion'' (JStr clientVersion) DEFAULT_CONTEXT_client
      in bindE (overlay_key options ''gl'' client0) (\<lambda>client1.
         bindE (overlay_key options ''hl'' client1) (\<lambda>client2.
         bindE (overlay_key options ''utcOffsetMinutes'' client2) (\<lambda>client3.
         bindE (get_prop options ''safeSearch'') (\<lambda>safeSearch.
         Inr \<lparr>json = doc, apiKey = JStr key,
              clientContext =
                JObj [(''client'', JObj client3),
                      (''user'', JObj (if truthy safeSearch
                                       then [(''enableSafetyMode'', JBool True)] else [])),
                      (''request'', JObj [])]\<rparr>)))))"

subsection \<open>\<^verbatim>\<open>checkArgs\<close>\<close>

text \<open>
  The pairing of the two budgets, on the merged options: a positive \<^verbatim>\<open>pages\<close> disables
  \<^verbatim>\<open>limit\<close>; otherwise a \<^verbatim>\<open>limit\<close> that is not a positive number is replaced by the default
  and \<^verbatim>\<open>pages\<close> becomes unbounded; otherwise both stay as given (\<^verbatim>\<open>pages\<close> possibly absent).
\<close>

definition normalise_budgets :: "env \<Rightarrow> (string \<times> jsval) list \<Rightarrow> (string \<times> jsval) list" where
  "normalise_budgets env obj =
     (if \<not> isNaN env (lookup obj ''pages'') \<and> num_less (Fin 0) (toNumber env (lookup obj ''pages''))
      then AList.update ''limit'' (JNum PInf) obj
      else if isNaN env (lookup obj ''limit'') \<or> num_le (toNumber env (lookup obj ''limit'')) (Fin 0)
      then AList.update ''limit'' (lookup DEFAULT_OPTIONS ''limit'')
             (AList.update ''pages'' (JNum PInf) obj)
      else obj)"

text \<open>
  The request options: a shallow copy, its \<^verbatim>\<open>headers\<close> unlinked, and for a safe search the
  cookie pushed onto \<^verbatim>\<open>headers.Cookie\<close>.
\<close>

definition safeSearch_cookie :: "jsval \<Rightarrow> error + jsval" where
  "safeSearch_cookie requestOptions =
     bindE (get_prop requestOptions ''headers'') (\<lambda>h0.
     bindE (if truthy h0 then Inr requestOptions
            else set_prop requestOptions ''headers'' (JObj [])) (\<lambda>ro1.
     bindE (get_prop ro1 ''headers'') (\<lambda>h1.
     bindE (get_prop h1 ''Cookie'') (\<lambda>c0.
     bindE (if truthy c0 then Inr h1 else set_prop h1 ''Cookie'' (JArr [])) (\<lambda>h2.
     bindE (get_prop h2 ''Cookie'') (\<lambda>c1.
     bindE (array_of c1) (\<lambda>cookies.
     bindE (set_prop h2 ''Cookie'' (JArr (cookies @ [JStr ''PREF=f2=8000000'']))) (\<lambda>h3.
     set_prop ro1 ''headers'' h3))))))))"

definition normalise_requestOptions :: "bool \<Rightarrow> jsval \<Rightarrow> error + jsval" where
  "normalise_requestOptions safe requestOptions0 =
     (let ro = assign [] (own_props requestOptions0);
          ro1 = (if truthy (lookup ro ''headers'')
                 then AList.update ''headers'' (json_clone (lookup ro ''headers'')) ro
                 else ro)
      in if safe then safeSearch_cookie (JObj ro1) else Inr (JObj ro1))"

text \<open>
  The query: the parameters of a filter link (a search string that starts with the base
  URL, has the path \<^verbatim>\<open>/results\<close> and a parameter \<^verbatim>\<open>sp\<close>), which must hold a search term, or
  else the search string itself.
\<close>

definition query_of :: "env \<Rightarrow> string \<Rightarrow> error + (string \<times> jsval) list" where
  "query_of env searchString =
     (case URL_parse env searchString of
        None \<Rightarrow> Inl TypeError
      | Some (pathname, params) \<Rightarrow>
          if prefix BASE_URL searchString \<and> pathname = ''/results''
             \<and> ''sp'' \<in> set (map fst params)
          then (case map_of params ''search_query'' of
                  None \<Rightarrow> Inl MissingSearchTermInFilterLink
                | Some term \<Rightarrow>
                    if term = [] then Inl MissingSearchTermInFilterLink
                    else Inr (foldl (\<lambda>q k. AList.update k
                                 (case map_of params k of None \<Rightarrow> JNull | Some v \<Rightarrow> JStr v) q)
                               [] (map fst params)))
          else Inr [(''search_query'', JStr searchString)])"

text \<open>The part of \<^verbatim>\<open>checkArgs\<close> after the validation of the search string \<open>s\<close>.\<close>

definition checkArgs_normalise :: "env \<Rightarrow> string \<Rightarrow> jsval \<Rightarrow> error + jsval" where
  "checkArgs_normalise env s options =
     (let obj1 = normalise_budgets env (assign (assign [] DEFAULT_OPTIONS) (own_props options));
          obj2 = (if typeof (lookup obj1 ''safeSearch'') \<noteq> ''boolean''
                  then AList.update ''safeSearch'' (lookup DEFAULT_OPTIONS ''safeSearch'') obj1
                  else obj1)
      in bindE (get_prop options ''requestOptions'') (\<lambda>requestOptions0.
         bindE (normalise_requestOptions (truthy (lookup obj2 ''safeSearch'')) requestOptions0)
           (\<lambda>requestOptions.
         bindE (query_of env s) (\<lambda>query0.
         bindE (get_prop options ''gl'') (\<lambda>gl.
         bindE (get_prop options ''hl'') (\<lambda>hl.
         (let obj3 = AList.update ''search'' (lookup query0 ''search_query'')
                       (AList.update ''query'' (JObj query0)
                         (AList.update ''requestOptions'' requestOptions obj2));
              query1 = assign (assign [] DEFAULT_QUERY) query0;
              query2 = (if truthy gl then AList.update ''gl'' gl query1 else query1);
              query3 = (if truthy hl then AList.update ''hl'' hl query2 else query2)
          in Inr (JObj (AList.update ''query'' (JObj query3) obj3)))))))))"

definition checkArgs :: "env \<Rightarrow> jsval \<Rightarrow> jsval \<Rightarrow> error + jsval" where
  "checkArgs env searchString options =
     (if \<not> truthy searchString then Inl MissingQuery
      else if typeof searchString \<noteq> ''string'' then Inl InvalidQueryType
      else checkArgs_normalise env (toString env searchString)
             (if options = JUndefined then JObj [] else options))"

section \<open>The pagination engine\<close>

text \<open>
  The transport is the sequence of response texts it hands out, one per request, in the
  order of the requests; when the sequence is used up the request client rejects
  (\<open>TransportError\<close>). A request that fails ends the call, so a failure in the middle of a
  sequence is the sequence cut short there. The texts do not depend on what is requested:
  the theorems hold for every sequence.

  An object that the code changes in place and that its caller still holds (the options
  of a continuation) is passed in and returned: a function that writes to it returns, next
  to its result or error, the state the object is left in.
\<close>

definition BASE_SEARCH_URL :: string where
  "BASE_SEARCH_URL = ''https://www.youtube.com/results?''"

text \<open>\<^verbatim>\<open>obj.k -= n\<close>.\<close>

definition minus_assign :: "env \<Rightarrow> jsval \<Rightarrow> string \<Rightarrow> int \<Rightarrow> error + jsval" where
  "minus_assign env obj k n =
     bindE (get_prop obj k) (\<lambda>v. set_prop obj k (JNum (num_minus (toNumber env v) n)))"

text \<open>The test \<^verbatim>\<open>!token || options.limit < 1 || options.pages < 1\<close> that ends the pagination.\<close>

definition at_end :: "env \<Rightarrow> jsval \<Rightarrow> jsval \<Rightarrow> error + bool" where
  "at_end env token options =
     bindE (get_prop options ''limit'') (\<lambda>limit.
     bindE (get_prop options ''pages'') (\<lambda>pages.
     Inr (\<not> truthy token \<or> num_less (toNumber env limit) (Fin 1)
          \<or> num_less (toNumber env pages) (Fin 1))))"

text \<open>
  The descriptor \<^verbatim>\<open>token && options.limit === Infinity ? [apiKey, token, context, options] : null\<close>.
\<close>

definition descriptor :: "jsval \<Rightarrow> jsval \<Rightarrow> jsval \<Rightarrow> jsval \<Rightarrow> error + jsval" where
  "descriptor key token ctx options =
     bindE (get_prop options ''limit'') (\<lambda>limit.
     Inr (if truthy token \<and> limit = JNum PInf then JArr [key, token, ctx, options] else JNull))"

text \<open>The continuation token of a marker, \<^verbatim>\<open>null\<close> when there is no marker.\<close>

definition token_of :: "jsval \<Rightarrow> error + jsval" where
  "token_of cont =
     (if truthy cont
      then get_path cont [''continuationItemRenderer'', ''continuationEndpoint'',
                          ''continuationCommand'', ''token'']
      else Inr JNull)"

text \<open>\<^verbatim>\<open>rawItems.map(item => parseItem(item, acc)).filter(item => item).filter((_, index) => index < limit)\<close>.\<close>

definition keep_items :: "env \<Rightarrow> result option \<Rightarrow> jsval \<Rightarrow> jsval list \<Rightarrow> jsval list" where
  "keep_items env acc limit rawItems =
     filter_index_below env limit (filter truthy (map (\<lambda>item. parseItem env item acc) rawItems))"

subsection \<open>\<^verbatim>\<open>doPost\<close> and \<^verbatim>\<open>fetchNextPage\<close>\<close>

text \<open>
  What \<^verbatim>\<open>doPost\<close> does to the options before the request is sent: it reads
  \<^verbatim>\<open>options.requestOptions\<close> and sets its \<^verbatim>\<open>method\<close>; when there are no request options the
  method is set on a fresh object and the options stay as they are.
\<close>

definition doPost_options :: "jsval \<Rightarrow> error + jsval" where
  "doPost_options options =
     bindE (get_prop options ''requestOptions'') (\<lambda>reqOpts.
     if reqOpts = JUndefined then Inr options
     else bindE (set_prop reqOpts ''method'' (JStr ''POST'')) (\<lambda>reqOpts'.
          set_prop options ''requestOptions'' reqOpts'))"

text \<open>
  One page of \<^verbatim>\<open>fetchNextPage\<close>, from the response text to the decision: the call fails,
  returns, or goes on to the next page with the items it kept and the next token. Each
  outcome carries the state of the options.
\<close>

datatype page_outcome =
    Failed error jsval
  | Ended page_result jsval
  | Continue "jsval list" jsval jsval

definition nextPage_items :: "env \<Rightarrow> jsval \<Rightarrow> jsval list \<Rightarrow> error + (jsval list \<times> jsval)" where
  "nextPage_items env options commands =
     bindE (get_path (array_index commands 0)
              [''appendContinuationItemsAction'', ''continuationItems'']) (\<lambda>continuationItems.
     bindE (parsePage2Wrapper continuationItems) (\<lambda>(rawItems, cont).
     bindE (get_prop options ''limit'') (\<lambda>limit.
     Inr (keep_items env None limit rawItems, cont))))"

definition nextPage_decide ::
  "env \<Rightarrow> jsval \<Rightarrow> jsval \<Rightarrow> jsval \<Rightarrow> jsval list \<Rightarrow> jsval \<Rightarrow> page_outcome" where
  "nextPage_decide env key ctx options parsedItems cont =
     (case bindE (minus_assign env options ''limit'' (int (length parsedItems)))
             (\<lambda>o1. minus_assign env o1 ''pages'' 1) of
        Inl e \<Rightarrow> Failed e options
      | Inr o2 \<Rightarrow>
          (case bindE (token_of cont) (\<lambda>nextToken.
                bindE (at_end env nextToken o2) (\<lambda>stop.
                bindE (descriptor key nextToken ctx o2) (\<lambda>d.
                Inr (nextToken, stop, d)))) of
             Inl e \<Rightarrow> Failed e o2
           | Inr (nextToken, stop, d) \<Rightarrow>
               if stop then Ended \<lparr>continuation = d, items = parsedItems\<rparr> o2
               else Continue parsedItems nextToken o2))"

definition nextPage :: "env \<Rightarrow> jsval \<Rightarrow> jsval \<Rightarrow> jsval \<Rightarrow> string \<Rightarrow> page_outcome" where
  "nextPage env key ctx options text =
     (case JSON_parse env text of
        None \<Rightarrow> Failed SyntaxError options
      | Some response \<Rightarrow>
          (case get_prop response ''onResponseReceivedCommands'' of
             Inl e \<Rightarrow> Failed e options
           | Inr commands \<Rightarrow>
               if \<not> isArray commands
               then Ended \<lparr>continuation = JNull, items = []\<rparr> options
               else (case bindE (array_of commands) (nextPage_items env options) of
                       Inl e \<Rightarrow> Failed e options
                     | Inr (parsedItems, cont) \<Rightarrow>
                         nextPage_decide env key ctx options parsedItems cont)))"

fun fetchNextPage ::
  "env \<Rightarrow> jsval \<Rightarrow> jsval \<Rightarrow> jsval \<Rightarrow> jsval \<Rightarrow> string list \<Rightarrow> (error + page_result) \<times> jsval" where
  "fetchNextPage env key token ctx options [] =
     (case doPost_options options of
        Inl e \<Rightarrow> (Inl e, options)
      | Inr options0 \<Rightarrow> (Inl TransportError, options0))"
| "fetchNextPage env key token ctx options (text # upstream) =
     (case doPost_options options of
        Inl e \<Rightarrow> (Inl e, options)
      | Inr options0 \<Rightarrow>
          (case nextPage env key ctx options0 text of
             Failed e st \<Rightarrow> (Inl e, st)
           | Ended r st \<Rightarrow> (Inr r, st)
           | Continue parsedItems nextToken st \<Rightarrow>
               (case fetchNextPage env key nextToken ctx st upstream of
                  (Inl e, o') \<Rightarrow> (Inl e, o')
                | (Inr nextPageResults, o') \<Rightarrow>
                    (Inr (nextPageResults\<lparr>items := parsedItems @ items nextPageResults\<rparr>), o'))))"

subsection \<open>\<^verbatim>\<open>fetchSearchResults\<close>\<close>

text \<open>
  The first page, from the response body to the decision: no document (the caller
  retries), a failure, the result, or the result so far with what the continuation fetch
  needs.
\<close>

datatype first_outcome =
    NoDocument
  | FirstFailed error
  | FirstEnded result
  | FirstContinue result jsval jsval jsval jsval

text \<open>The check for an error alert: \<^verbatim>\<open>json.alerts && !json.contents\<close>, then the first alert of type \<^verbatim>\<open>ERROR\<close>.\<close>

definition is_error_alert :: "jsval \<Rightarrow> error + bool" where
  "is_error_alert alert =
     bindE (get_prop alert ''alertRenderer'') (\<lambda>r.
     if truthy r then bindE (get_prop r ''type'') (\<lambda>t. Inr (t = JStr ''ERROR''))
     else Inr False)"

definition check_alerts :: "env \<Rightarrow> jsval \<Rightarrow> error + unit" where
  "check_alerts env doc =
     bindE (get_prop doc ''alerts'') (\<lambda>alerts.
     bindE (get_prop doc ''contents'') (\<lambda>contents.
     if truthy alerts \<and> \<not> truthy contents
     then bindE (array_of alerts) (\<lambda>as.
          bindE (findE is_error_alert as) (\<lambda>err.
          if truthy err
          then bindE (get_path err [''alertRenderer'', ''text'']) (\<lambda>tx.
               bindE (parseText env tx (JStr ''* no message *'')) (\<lambda>msg.
               Inl (UpstreamError (''API-Error: '' @ toString env msg))))
          else Inr ()))
     else Inr ()))"

text \<open>The refinements are mapped to objects that are then dropped; building one resolves a URL, which may raise.\<close>

definition check_refinements :: "env \<Rightarrow> jsval \<Rightarrow> error + unit" where
  "check_refinements env doc =
     bindE (get_prop doc ''refinements'') (\<lambda>rs.
     if isArray rs
     then bindE (array_of rs) (\<lambda>xs.
          bindE (mapE (\<lambda>r. case URL_resolve env r BASE_SEARCH_URL of
                              None \<Rightarrow> Inl TypeError
                            | Some u \<Rightarrow> Inr u) xs) (\<lambda>urls. Inr ()))
     else Inr ())"

definition initial_result :: "env \<Rightarrow> jsval \<Rightarrow> jsval \<Rightarrow> error + result" where
  "initial_result env opts doc =
     bindE (get_prop opts ''search'') (\<lambda>search.
     bindE (get_prop doc ''estimatedResults'') (\<lambda>estimated.
     Inr \<lparr>continuation = JNull, items = [],
          originalQuery = search, correctedQuery = search,
          results = (if toNumber env estimated = NaN \<or> toNumber env estimated = Fin 0
                     then Fin 0 else toNumber env estimated),
          activeFilters = [], refinements = []\<rparr>))"

text \<open>The items of the first page, lines 63 to 68.\<close>

definition firstPage_items :: "env \<Rightarrow> jsval \<Rightarrow> jsval \<Rightarrow> result \<Rightarrow> error + (jsval list \<times> jsval)" where
  "firstPage_items env opts doc acc =
     bindE (get_path doc [''contents'', ''twoColumnSearchResultsRenderer'', ''primaryContents''])
       (\<lambda>primaryContents.
     bindE (parseWrapper primaryContents) (\<lambda>(rawItems, cont).
     bindE (array_of rawItems) (\<lambda>raw.
     bindE (get_prop opts ''limit'') (\<lambda>limit.
     Inr (keep_items env (Some acc) limit raw, cont)))))"

text \<open>Lines 70 to 88: the budgets, the active filters, the token, the descriptor and the decision.\<close>

definition firstPage_decide ::
  "env \<Rightarrow> jsval \<Rightarrow> parsed_body \<Rightarrow> result \<Rightarrow> jsval list \<Rightarrow> jsval \<Rightarrow> error + first_outcome" where
  "firstPage_decide env opts parsedResponse acc kept cont =
     bindE (minus_assign env opts ''limit'' (int (length kept))) (\<lambda>o1.
     bindE (minus_assign env o1 ''pages'' 1) (\<lambda>o2.
     bindE (parseFilters env (json parsedResponse)) (\<lambda>filters.
     bindE (token_of cont) (\<lambda>token.
     bindE (descriptor (apiKey parsedResponse) token (clientContext parsedResponse) o2) (\<lambda>d.
     bindE (at_end env token o2) (\<lambda>stop.
     (let res = acc\<lparr>items := kept,
                    activeFilters := filter truthy (map (\<lambda>(name, g). active g) filters),
                    continuation := d\<rparr>
      in Inr (if stop then FirstEnded res
              else FirstContinue res (apiKey parsedResponse) token
                     (clientContext parsedResponse) o2))))))))"

definition firstPage :: "env \<Rightarrow> jsval \<Rightarrow> string \<Rightarrow> first_outcome" where
  "firstPage env opts responseBody =
     (case parseBody env responseBody opts of
        Inl e \<Rightarrow> FirstFailed e
      | Inr parsedResponse \<Rightarrow>
          if \<not> truthy (json parsedResponse) then NoDocument
          else (case bindE (check_alerts env (json parsedResponse)) (\<lambda>_.
                     bindE (initial_result env opts (json parsedResponse)) (\<lambda>acc.
                     bindE (check_refinements env (json parsedResponse)) (\<lambda>_.
                     bindE (firstPage_items env opts (json parsedResponse) acc) (\<lambda>(kept, cont).
                     firstPage_decide env opts parsedResponse acc kept cont)))) of
                  Inl e \<Rightarrow> FirstFailed e
                | Inr outcome \<Rightarrow> outcome))"

text \<open>
  \<^verbatim>\<open>fetchSearchResults(searchString, options, retries)\<close>, with the number of retries left a
  natural number; its default is 3.
\<close>

fun fetchSearchResults_retries ::
  "env \<Rightarrow> jsval \<Rightarrow> jsval \<Rightarrow> nat \<Rightarrow> string list \<Rightarrow> error + result" where
  "fetchSearchResults_retries env searchString options 0 upstream = Inl NoDocumentFound"
| "fetchSearchResults_retries env searchString options (Suc retries) upstream =
     bindE (checkArgs env searchString options) (\<lambda>opts.
     case upstream of
       [] \<Rightarrow> Inl TransportError
     | responseBody # rest \<Rightarrow>
         (case firstPage env opts responseBody of
            NoDocument \<Rightarrow> fetchSearchResults_retries env searchString options retries rest
          | FirstFailed e \<Rightarrow> Inl e
          | FirstEnded res \<Rightarrow> Inr res
          | FirstContinue res key token ctx opts1 \<Rightarrow>
              bindE (fst (fetchNextPage env key token ctx opts1 rest)) (\<lambda>nextPageResults.
              Inr (res\<lparr>items := items res @ items nextPageResults,
                       continuation := continuation nextPageResults\<rparr>))))"

definition fetchSearchResults :: "env \<Rightarrow> jsval \<Rightarrow> jsval \<Rightarrow> string list \<Rightarrow> error + result" where
  "fetchSearchResults env searchString options upstream =
     fetchSearchResults_retries env searchString options 3 upstream"

subsection \<open>\<^verbatim>\<open>continueRequest\<close>\<close>

text \<open>
  The validation, lines 146 to 158: the checks in their order, and then the two
  assignments to the options object \<^verbatim>\<open>args[3]\<close>. It returns the four arguments of the
  continuation fetch, the last of them the options as the assignments leave them.
\<close>

definition continueRequest_validate ::
  "env \<Rightarrow> jsval \<Rightarrow> error + (jsval \<times> jsval \<times> jsval \<times> jsval)" where
  "continueRequest_validate env args =
     (case args of
        JArr xs \<Rightarrow>
          if length xs \<noteq> 4 then Inl (InvalidDescriptor ''Invalid continuation array'')
          else if \<not> truthy (array_index xs 0) \<or> typeof (array_index xs 0) \<noteq> ''string''
            then Inl (InvalidDescriptor ''Invalid apiKey'')
          else if \<not> truthy (array_index xs 1) \<or> typeof (array_index xs 1) \<noteq> ''string''
            then Inl (InvalidDescriptor ''Invalid token'')
          else if \<not> truthy (array_index xs 2) \<or> typeof (array_index xs 2) \<noteq> ''object''
            then Inl (InvalidDescriptor ''Invalid context'')
          else if \<not> truthy (array_index xs 3) \<or> typeof (array_index xs 3) \<noteq> ''object''
            then Inl (InvalidDescriptor ''Invalid options'')
          else bindE (get_prop (array_index xs 3) ''limit'') (\<lambda>limit.
            if limit \<noteq> JNull \<and> \<not> isNaN env limit \<and> isFinite env limit
            then Inl BudgetMismatch
            else bindE (set_prop (array_index xs 3) ''pages'' (JNum (Fin 1))) (\<lambda>o1.
                 bindE (set_prop o1 ''limit'' (JNum PInf)) (\<lambda>o2.
                 Inr (array_index xs 0, array_index xs 1, array_index xs 2, o2))))
      | _ \<Rightarrow> Inl (InvalidDescriptor ''Invalid continuation array''))"

text \<open>
  \<^verbatim>\<open>continueRequest\<close>: the validation, then \<^verbatim>\<open>fetchNextPage(...args)\<close>. Next to the outcome it
  returns the state the caller's options object is left in, which is \<open>None\<close> when the
  validation fails before it reads the options.
\<close>

definition continueRequest ::
  "env \<Rightarrow> jsval \<Rightarrow> string list \<Rightarrow> (error + page_result) \<times> jsval option" where
  "continueRequest env args upstream =
     (case continueRequest_validate env args of
        Inl e \<Rightarrow> (Inl e, None)
      | Inr (key, token, ctx, options) \<Rightarrow>
          (case fetchNextPage env key token ctx options upstream of
             (outcome, options') \<Rightarrow> (outcome, Some options')))"

section \<open>Notions of the claims\<close>

text \<open>
  The grid-shaped first page, in the specification's words "a flat list of entries each
  either directly an item or a continuation marker": the container has no sectioned
  renderer, its grid renderer holds the list \<open>es\<close>, and every entry is a marker (it has the
  property \<^verbatim>\<open>continuationItemRenderer\<close>) or an item (an object with a grid item or a grid
  section).
\<close>

definition is_marker :: "jsval \<Rightarrow> bool" where
  "is_marker x = (hasOwnProperty x ''continuationItemRenderer'' = Inr True)"

definition is_grid_item :: "jsval \<Rightarrow> bool" where
  "is_grid_item x =
     (case x of
        JObj kvs \<Rightarrow>
          truthy (lookup kvs ''richItemRenderer'') \<or> truthy (lookup kvs ''richSectionRenderer'')
      | _ \<Rightarrow> False)"

definition grid_shaped :: "jsval \<Rightarrow> jsval list \<Rightarrow> bool" where
  "grid_shaped primaryContents es =
     (case primaryContents of
        JObj pc \<Rightarrow>
          \<not> truthy (lookup pc ''sectionListRenderer'')
          \<and> (case lookup pc ''richGridRenderer'' of
                JObj rg \<Rightarrow> lookup rg ''contents'' = JArr es
              | _ \<Rightarrow> False)
          \<and> list_all (\<lambda>x. is_marker x \<or> is_grid_item x) es
      | _ \<Rightarrow> False)"




text \<open>
  The items each page of a continuation fetch keeps, page by page in the order the pages
  are fetched: the list is empty where the fetch fails or stops before it keeps anything of
  a page.
\<close>

fun pages_kept :: "env \<Rightarrow> jsval \<Rightarrow> jsval \<Rightarrow> jsval \<Rightarrow> string list \<Rightarrow> jsval list list" where
  "pages_kept env key ctx options [] = []"
| "pages_kept env key ctx options (text # upstream) =
     (case doPost_options options of
        Inl e \<Rightarrow> []
      | Inr options0 \<Rightarrow>
          (case nextPage env key ctx options0 text of
             Failed e st \<Rightarrow> []
           | Ended r st \<Rightarrow> [items r]
           | Continue parsedItems nextToken st \<Rightarrow>
               parsedItems # pages_kept env key ctx st upstream))"

text \<open>
  The same for a search: the items kept of the first page that holds a document, and then
  the pages of the continuation fetch that follows it.
\<close>

fun search_pages_kept :: "env \<Rightarrow> jsval \<Rightarrow> jsval \<Rightarrow> nat \<Rightarrow> string list \<Rightarrow> jsval list list" where
  "search_pages_kept env searchString options 0 upstream = []"
| "search_pages_kept env searchString options (Suc retries) upstream =
     (case checkArgs env searchString options of
        Inl e \<Rightarrow> []
      | Inr opts \<Rightarrow>
          (case upstream of
             [] \<Rightarrow> []
           | responseBody # rest \<Rightarrow>
               (case firstPage env opts responseBody of
                  NoDocument \<Rightarrow> search_pages_kept env searchString options retries rest
                | FirstFailed e \<Rightarrow> []
                | FirstEnded res \<Rightarrow> [items res]
                | FirstContinue res key token ctx opts1 \<Rightarrow>
                    items res # pages_kept env key ctx opts1 rest)))"

text \<open>A computation that raises no error outside the set \<open>E\<close>.\<close>

definition raises_only :: "error set \<Rightarrow> error + 'a \<Rightarrow> bool" where
  "raises_only E m = (\<forall>e. m = Inl e \<longrightarrow> e \<in> E)"

subsection \<open>An environment and documents for the examples\<close>

text \<open>
  Three pages of an example search. The first is a grid with three items and a marker
  that carries the token \<open>T1\<close>, and an inline submenu without groups; the second is a
  continuation batch with two grid items and a marker with the token \<open>T2\<close>; the third is a
  continuation batch with one legacy section of two items and no marker.
\<close>

definition demo_item :: "string \<Rightarrow> jsval" where
  "demo_item name = JObj [(''richItemRenderer'', JObj [(''content'', JStr name)])]"

definition demo_marker :: "string \<Rightarrow> jsval" where
  "demo_marker token =
     JObj [(''continuationItemRenderer'',
            JObj [(''continuationEndpoint'',
                   JObj [(''continuationCommand'', JObj [(''token'', JStr token)])])])]"

definition demo_grid :: jsval where
  "demo_grid =
     JObj [(''richGridRenderer'',
            JObj [(''contents'',
                   JArr [demo_item ''A'', demo_item ''B'', demo_item ''C'', demo_marker ''T1'']),
                  (''subMenu'', JObj [(''searchSubMenuRenderer'', JObj [(''groups'', JArr [])])])])]"

definition demo_first :: jsval where
  "demo_first =
     JObj [(''estimatedResults'', JNum (Fin 7)),
           (''contents'',
            JObj [(''twoColumnSearchResultsRenderer'', JObj [(''primaryContents'', demo_grid)])])]"

definition demo_batch :: "jsval list \<Rightarrow> jsval" where
  "demo_batch cits =
     JObj [(''onResponseReceivedCommands'',
            JArr [JObj [(''appendContinuationItemsAction'',
                         JObj [(''continuationItems'', JArr cits)])]])]"

definition demo_second :: jsval where
  "demo_second = demo_batch [demo_item ''D'', demo_item ''E'', demo_marker ''T2'']"

definition demo_third :: jsval where
  "demo_third =
     demo_batch [JObj [(''itemSectionRenderer'', JObj [(''contents'', JArr [JStr ''F'', JStr ''G''])])]]"

text \<open>
  The environment of the examples. \<open>JSON_parse\<close> knows the texts of the examples by name;
  the item mapper returns the raw item.
\<close>

definition demo_parse :: "string \<Rightarrow> jsval option" where
  "demo_parse text =
     map_of [(''{first}'', demo_first), (''{second}'', demo_second), (''{third}'', demo_third),
             (''{}'', JObj []),
             (''{commands:[]}'', JObj [(''onResponseReceivedCommands'', JArr [])]),
             (''{results}'',
              JObj [(''contents'',
                JObj [(''twoColumnSearchResultsRenderer'',
                  JObj [(''primaryContents'',
                    JObj [(''sectionListRenderer'', JObj [(''contents'', JArr [])])])])])])]
       text"

definition demo_env :: env where
  "demo_env =
     \<lparr>JSON_parse = demo_parse,
      ToNumber_other = (\<lambda>v. NaN),
      ToString_other = (\<lambda>v. ''''),
      URL_resolve = (\<lambda>u base. Some base),
      URL_parse = (\<lambda>s. Some (''/'' @ s, [])),
      parseItem = (\<lambda>item acc. item)\<rparr>"

text \<open>
  A document whose inline submenu (under the lower-case spelling) and whose search-header
  popup dialog are both there without groups.
\<close>

fun nested :: "string list \<Rightarrow> jsval \<Rightarrow> jsval" where
  "nested [] v = v"
| "nested (k # ks) v = JObj [(k, nested ks v)]"

definition demo_no_groups :: jsval where
  "demo_no_groups =
     JObj [(''contents'',
            nested [''twoColumnSearchResultsRenderer'', ''primaryContents'', ''richGridRenderer'',
                    ''submenu'', ''searchSubMenuRenderer''] (JObj [])),
           (''header'',
            nested [''searchHeaderRenderer'', ''searchFilterButton'', ''buttonRenderer'',
                    ''command'', ''openPopupAction'', ''popup'',
                    ''searchFilterOptionsDialogRenderer''] (JObj []))]"

section \<open>Proofs about the scanner\<close>

lemma special_chars_distinct:
  "dquote \<noteq> backslash" "dquote \<noteq> CHR ''[''" "dquote \<noteq> CHR '']''" "dquote \<noteq> CHR ''{''"
  "dquote \<noteq> CHR ''}''" "backslash \<noteq> CHR ''[''" "backslash \<noteq> CHR '']''"
  "backslash \<noteq> CHR ''{''" "backslash \<noteq> CHR ''}''"
  by (simp_all add: dquote_def backslash_def)

lemma passes_Nil: "passes opn cls []"
  by (simp add: passes_def)

lemma passes_append: "passes opn cls s \<Longrightarrow> passes opn cls t \<Longrightarrow> passes opn cls (s @ t)"
  by (simp add: passes_def add.assoc)

lemma passes_inert_char:
  assumes "root_pair opn cls" "inert c"
  shows "passes opn cls [c]"
  using assms by (auto simp: passes_def inert_def root_pair_def)

lemma passes_inert:
  assumes "root_pair opn cls" "list_all inert t"
  shows "passes opn cls t"
  using assms(2)
proof (induction t)
  case Nil
  show ?case by (rule passes_Nil)
next
  case (Cons c t)
  have "passes opn cls ([c] @ t)"
    using Cons passes_inert_char[OF assms(1)] by (intro passes_append) simp_all
  then show ?case by simp
qed

lemma hex_not_special:
  assumes "h \<in> set ''0123456789abcdefABCDEF''"
  shows "h \<noteq> dquote" "h \<noteq> backslash"
  using assms by (auto simp: dquote_def backslash_def)

lemma loop_in_string_plain:
  "c \<noteq> dquote \<Longrightarrow> c \<noteq> backslash \<Longrightarrow>
   cutAfterJSON_loop opn cls True False n i (c # sfx) =
   cutAfterJSON_loop opn cls True False n (Suc i) sfx"
  by simp

lemma loop_in_string_escape:
  "cutAfterJSON_loop opn cls True False n i (backslash # c # sfx) =
   cutAfterJSON_loop opn cls True False n (Suc (Suc i)) sfx"
  by (simp add: special_chars_distinct[symmetric])

lemma loop_jchar:
  assumes "wf_jchar c"
  shows "cutAfterJSON_loop opn cls True False n i (jchar_text c @ sfx) =
         cutAfterJSON_loop opn cls True False n (i + length (jchar_text c)) sfx"
proof (cases c)
  case (Plain x)
  with assms show ?thesis by (simp add: loop_in_string_plain)
next
  case (Escape x)
  show ?thesis unfolding Escape jchar_text.simps
    by (simp only: append_Cons append_Nil loop_in_string_escape) simp
next
  case (Unicode a b c d)
  with assms have ns: "a \<noteq> dquote" "a \<noteq> backslash" "b \<noteq> dquote" "b \<noteq> backslash"
    "c \<noteq> dquote" "c \<noteq> backslash" "d \<noteq> dquote" "d \<noteq> backslash"
    using hex_not_special by simp_all
  show ?thesis unfolding Unicode jchar_text.simps
    by (simp only: append_Cons append_Nil loop_in_string_escape loop_in_string_plain[OF ns(1,2)]
        loop_in_string_plain[OF ns(3,4)] loop_in_string_plain[OF ns(5,6)]
        loop_in_string_plain[OF ns(7,8)]) simp
qed

lemma loop_string_body:
  assumes "list_all wf_jchar cs"
  shows "cutAfterJSON_loop opn cls True False n i (concat (map jchar_text cs) @ rest) =
         cutAfterJSON_loop opn cls True False n (i + length (concat (map jchar_text cs))) rest"
  using assms
proof (induction cs arbitrary: i)
  case Nil
  show ?case by simp
next
  case (Cons c cs)
  then have wf: "wf_jchar c" and rest: "list_all wf_jchar cs" by simp_all
  show ?case
    using loop_jchar[OF wf, of opn cls n i "concat (map jchar_text cs) @ rest"] Cons.IH[OF rest]
    by (simp add: add.assoc)
qed

lemma passes_string:
  assumes "list_all wf_jchar cs"
  shows "passes opn cls (string_text cs)"
  unfolding passes_def string_text_def
  using loop_string_body[OF assms] by (simp add: special_chars_distinct)

lemma passes_separated:
  assumes "root_pair opn cls" "\<forall>x \<in> set xs. passes opn cls x"
  shows "passes opn cls (separated xs)"
  using assms(2)
proof (induction xs rule: separated.induct)
  case 1
  show ?case by (simp add: passes_Nil)
next
  case (2 x)
  then show ?case by simp
next
  case (3 x y ys)
  have "passes opn cls (x @ [CHR '',''] @ separated (y # ys))"
    using 3 passes_inert_char[OF assms(1), of "CHR '',''"]
    by (intro passes_append) (simp_all add: inert_def dquote_def backslash_def)
  then show ?case by simp
qed

lemma passes_wrap:
  assumes "root_pair opn cls" "root_pair o' c'" "passes opn cls t"
  shows "passes opn cls (o' # t @ [c'])"
proof -
  have "cutAfterJSON_loop opn cls False False n i ((o' # t @ [c']) @ rest) =
        cutAfterJSON_loop opn cls False False n (i + length (o' # t @ [c'])) rest"
    if "0 < n" for n i rest
  proof (cases "o' = opn")
    case True
    with assms have c: "c' = cls" "opn \<noteq> cls" "opn \<noteq> dquote" "cls \<noteq> dquote"
      "cls \<noteq> backslash" "opn \<noteq> backslash"
      by (auto simp: root_pair_def special_chars_distinct)
    have "cutAfterJSON_loop opn cls False False n i ((o' # t @ [c']) @ rest) =
          cutAfterJSON_loop opn cls False False (n + 1) (Suc i) (t @ cls # rest)"
      using True c that by simp
    also have "\<dots> = cutAfterJSON_loop opn cls False False (n + 1) (Suc i + length t) (cls # rest)"
      using assms(3) that by (simp add: passes_def)
    also have "\<dots> = cutAfterJSON_loop opn cls False False n (i + length (o' # t @ [c'])) rest"
      using c that by simp
    finally show ?thesis .
  next
    case False
    with assms have c: "c' \<noteq> cls" "c' \<noteq> opn" "o' \<noteq> cls" "o' \<noteq> dquote" "c' \<noteq> dquote"
      "c' \<noteq> backslash" "o' \<noteq> backslash"
      by (auto simp: root_pair_def special_chars_distinct)
    have "cutAfterJSON_loop opn cls False False n i ((o' # t @ [c']) @ rest) =
          cutAfterJSON_loop opn cls False False n (Suc i) (t @ c' # rest)"
      using False c that by simp
    also have "\<dots> = cutAfterJSON_loop opn cls False False n (Suc i + length t) (c' # rest)"
      using assms(3) that by (simp add: passes_def)
    also have "\<dots> = cutAfterJSON_loop opn cls False False n (i + length (o' # t @ [c'])) rest"
      using c that by simp
    finally show ?thesis .
  qed
  then show ?thesis by (simp add: passes_def)
qed

lemma inert_code:
  "inert c = (c \<noteq> CHR 0x22 \<and> c \<noteq> CHR 0x5C \<and> c \<noteq> CHR ''['' \<and> c \<noteq> CHR '']''
     \<and> c \<noteq> CHR ''{'' \<and> c \<noteq> CHR ''}'')"
  by (simp add: inert_def dquote_def backslash_def)

lemma ws_char_inert: "c \<in> set [CHR 0x20, CHR 0x09, CHR 0x0A, CHR 0x0D] \<Longrightarrow> inert c"
  by (auto simp: inert_code)

lemma digit_char_inert: "c \<in> set ''0123456789'' \<Longrightarrow> inert c"
  by (auto simp: inert_code)

lemma is_ws_inert: "is_ws w \<Longrightarrow> list_all inert w"
  unfolding is_ws_def list_all_iff using ws_char_inert by blast

lemma is_digits_inert: "is_digits w \<Longrightarrow> list_all inert w"
  unfolding is_digits_def list_all_iff using digit_char_inert by blast

lemma sign_inert: "sg \<in> set ['''', ''+'', ''-''] \<Longrightarrow> list_all inert sg"
  by (auto simp: inert_code)

lemma exp_char_inert: "e \<in> set ''eE'' \<Longrightarrow> inert e"
  by (auto simp: inert_code)

lemma number_inert:
  assumes "wf_jtext (TNumber neg ip fr ex)"
  shows "list_all inert (text_of (TNumber neg ip fr ex))"
proof -
  have a: "list_all inert (if neg then ''-'' else '''')"
    by (simp add: inert_code)
  have "ip = ''0'' \<or> is_digits ip" using assms by auto
  then have b: "list_all inert ip"
    using is_digits_inert by (auto simp: inert_code)
  have c: "list_all inert (case fr of None \<Rightarrow> '''' | Some f \<Rightarrow> CHR ''.'' # f)"
  proof (cases fr)
    case None
    then show ?thesis by simp
  next
    case (Some f)
    with assms have "is_digits f" by simp
    with Some show ?thesis using is_digits_inert by (simp add: inert_code)
  qed
  have d: "list_all inert (case ex of None \<Rightarrow> '''' | Some (e, sg, ds) \<Rightarrow> e # sg @ ds)"
  proof (cases ex)
    case None
    then show ?thesis by simp
  next
    case (Some t)
    obtain e sg ds where t: "t = (e, sg, ds)" by (cases t)
    with assms Some have "e \<in> set ''eE''" "sg \<in> set ['''', ''+'', ''-'']" "is_digits ds"
      by simp_all
    then show ?thesis
      using exp_char_inert sign_inert is_digits_inert by (simp add: Some t)
  qed
  show ?thesis using a b c d by simp
qed

lemma literal_inert: "wf_jtext (TLiteral s) \<Longrightarrow> list_all inert s"
  by (auto simp: inert_code)

lemma passes_text:
  assumes rp: "root_pair opn cls"
  shows "wf_jtext v \<longrightarrow> passes opn cls (text_of v)"
    and "wf_element e \<longrightarrow> passes opn cls (element_text e)"
    and "wf_member m \<longrightarrow> passes opn cls (member_text m)"
proof (induction v and e and m)
  case (TLiteral s)
  show ?case using passes_inert[OF rp literal_inert] by simp
next
  case (TNumber neg ip fr ex)
  show ?case using passes_inert[OF rp number_inert] by blast
next
  case (TString cs)
  show ?case by (simp add: passes_string)
next
  case (TArray w es)
  show ?case
  proof
    assume wf: "wf_jtext (TArray w es)"
    have inner: "passes opn cls (if es = [] then w else separated (map element_text es))"
    proof (cases "es = []")
      case True
      with wf show ?thesis using passes_inert[OF rp is_ws_inert] by simp
    next
      case False
      have "\<forall>x \<in> set (map element_text es). passes opn cls x"
        using TArray wf by (auto simp: list_all_iff)
      with False show ?thesis using passes_separated[OF rp] by simp
    qed
    have "root_pair (CHR ''['') (CHR '']'')" by (simp add: root_pair_def)
    from passes_wrap[OF rp this inner] show "passes opn cls (text_of (TArray w es))" by simp
  qed
next
  case (TObject w ms)
  show ?case
  proof
    assume wf: "wf_jtext (TObject w ms)"
    have inner: "passes opn cls (if ms = [] then w else separated (map member_text ms))"
    proof (cases "ms = []")
      case True
      with wf show ?thesis using passes_inert[OF rp is_ws_inert] by simp
    next
      case False
      have "\<forall>x \<in> set (map member_text ms). passes opn cls x"
        using TObject wf by (auto simp: list_all_iff)
      with False show ?thesis using passes_separated[OF rp] by simp
    qed
    have "root_pair (CHR ''{'') (CHR ''}'')" by (simp add: root_pair_def)
    from passes_wrap[OF rp this inner] show "passes opn cls (text_of (TObject w ms))" by simp
  qed
next
  case (Element w1 v w2)
  show ?case
  proof
    assume wf: "wf_element (Element w1 v w2)"
    have "passes opn cls (w1 @ text_of v @ w2)"
      using wf Element passes_inert[OF rp is_ws_inert]
      by (intro passes_append) simp_all
    then show "passes opn cls (element_text (Element w1 v w2))" by simp
  qed
next
  case (Member w1 k w2 e)
  show ?case
  proof
    assume wf: "wf_member (Member w1 k w2 e)"
    have colon: "passes opn cls [CHR '':'']"
      by (rule passes_inert_char[OF rp]) (simp add: inert_def dquote_def backslash_def)
    have "passes opn cls (w1 @ string_text k @ w2 @ [CHR '':''] @ element_text e)"
      using wf Member passes_inert[OF rp is_ws_inert] colon
      by (intro passes_append) (simp_all add: passes_string)
    then show "passes opn cls (member_text (Member w1 k w2 e))" by simp
  qed
qed

lemma loop_root:
  assumes "root_pair opn cls" "passes opn cls t"
  shows "cutAfterJSON_loop opn cls False False 0 0 (opn # t @ cls # rest) = Found (Suc (length t))"
proof -
  from assms(1) have c: "opn \<noteq> cls" "opn \<noteq> dquote" "cls \<noteq> dquote" "cls \<noteq> backslash"
    "opn \<noteq> backslash"
    by (auto simp: root_pair_def special_chars_distinct)
  have "cutAfterJSON_loop opn cls False False 0 0 (opn # t @ cls # rest) =
        cutAfterJSON_loop opn cls False False 1 1 (t @ cls # rest)"
    using c by simp
  also have "\<dots> = cutAfterJSON_loop opn cls False False 1 (1 + length t) (cls # rest)"
    using assms(2) by (simp add: passes_def)
  also have "\<dots> = Found (Suc (length t))"
    using c by simp
  finally show ?thesis .
qed

lemma cutAfterJSON_wf:
  assumes "wf_jtext v" "is_root v"
  shows "cutAfterJSON (text_of v @ rest) = Inr (text_of v)"
proof -
  from assms(2) obtain opn cls t where rp: "root_pair opn cls"
    and vtext: "text_of v = opn # t @ [cls]"
    and inner: "wf_jtext v \<longrightarrow> passes opn cls t"
  proof (cases v)
    case (TArray w es)
    have rp: "root_pair (CHR ''['') (CHR '']'')" by (simp add: root_pair_def)
    have "wf_jtext v \<longrightarrow>
          passes (CHR ''['') (CHR '']'') (if es = [] then w else separated (map element_text es))"
      unfolding TArray
      using passes_inert[OF rp is_ws_inert] passes_separated[OF rp] passes_text(2)[OF rp]
      by (auto simp: list_all_iff)
    with that[OF rp] show ?thesis by (simp add: TArray)
  next
    case (TObject w ms)
    have rp: "root_pair (CHR ''{'') (CHR ''}'')" by (simp add: root_pair_def)
    have "wf_jtext v \<longrightarrow>
          passes (CHR ''{'') (CHR ''}'') (if ms = [] then w else separated (map member_text ms))"
      unfolding TObject
      using passes_inert[OF rp is_ws_inert] passes_separated[OF rp] passes_text(3)[OF rp]
      by (auto simp: list_all_iff)
    with that[OF rp] show ?thesis by (simp add: TObject)
  qed simp_all
  have bp: "bracket_pair (text_of v @ rest) = Some (opn, cls)"
    using rp by (auto simp: vtext bracket_pair_def root_pair_def)
  have "cutAfterJSON_loop opn cls False False 0 0 (text_of v @ rest) = Found (Suc (length t))"
    using loop_root[OF rp, of t rest] inner assms(1) by (simp add: vtext)
  then show ?thesis
    by (simp add: cutAfterJSON_def bp) (simp add: vtext)
qed

lemma loop_Cons:
  "cutAfterJSON_loop opn cls b e n i (c # s) =
     (if c = dquote \<and> \<not> e then cutAfterJSON_loop opn cls (\<not> b) e n (Suc i) s
      else if b then cutAfterJSON_loop opn cls True (c = backslash \<and> \<not> e) n (Suc i) s
      else if c = opn
        then (if n + 1 = 0 then Found i
              else cutAfterJSON_loop opn cls False (c = backslash \<and> \<not> e) (n + 1) (Suc i) s)
      else if c = cls
        then (if n - 1 = 0 then Found i
              else cutAfterJSON_loop opn cls False (c = backslash \<and> \<not> e) (n - 1) (Suc i) s)
      else (if n = 0 then Found i
            else cutAfterJSON_loop opn cls False (c = backslash \<and> \<not> e) n (Suc i) s))"
  by (cases b) (auto simp: Let_def)

lemma loop_exhausted_positive:
  "0 < n \<Longrightarrow> cutAfterJSON_loop opn cls b e n i s = Exhausted k \<Longrightarrow> 0 < k"
proof (induction s arbitrary: b e n i)
  case Nil
  then show ?case by simp
next
  case (Cons c s)
  from Cons.prems(2) consider
      (quote) "cutAfterJSON_loop opn cls (\<not> b) e n (Suc i) s = Exhausted k"
    | (instr) "cutAfterJSON_loop opn cls True (c = backslash \<and> \<not> e) n (Suc i) s = Exhausted k"
    | (up) "cutAfterJSON_loop opn cls False (c = backslash \<and> \<not> e) (n + 1) (Suc i) s = Exhausted k"
    | (down) "n - 1 \<noteq> 0"
        "cutAfterJSON_loop opn cls False (c = backslash \<and> \<not> e) (n - 1) (Suc i) s = Exhausted k"
    | (same) "cutAfterJSON_loop opn cls False (c = backslash \<and> \<not> e) n (Suc i) s = Exhausted k"
    unfolding loop_Cons by (auto split: if_splits)
  then show ?case
  proof cases
    case quote
    with Cons.IH[OF Cons.prems(1)] show ?thesis .
  next
    case instr
    with Cons.IH[OF Cons.prems(1)] show ?thesis .
  next
    case up
    from Cons.prems(1) have "0 < n + 1" by simp
    from Cons.IH[OF this up] show ?thesis .
  next
    case down
    with Cons.prems(1) have "0 < n - 1" by simp
    from Cons.IH[OF this down(2)] show ?thesis .
  next
    case same
    with Cons.IH[OF Cons.prems(1)] show ?thesis .
  qed
qed

lemma root_exhausted_positive:
  assumes "bracket_pair s = Some (opn, cls)"
    and "cutAfterJSON_loop opn cls False False 0 0 s = Exhausted k"
  shows "0 < k"
proof -
  from assms(1) obtain rest where s: "s = opn # rest" and d: "opn \<noteq> dquote"
    by (auto simp: bracket_pair_def dquote_def split: list.splits if_splits)
  from assms(2) have "cutAfterJSON_loop opn cls False (opn = backslash) 1 1 rest = Exhausted k"
    by (simp add: s d)
  then show ?thesis using loop_exhausted_positive[of 1] by simp
qed

section \<open>Claims about the scanner\<close>

text \<open>
  C1. For every well-formed JSON array or object \<open>v\<close> and every string \<open>rest\<close> that follows
  its text, \<^verbatim>\<open>cutAfterJSON\<close> applied to the text of \<open>v\<close> followed by \<open>rest\<close> returns exactly
  the text of \<open>v\<close>: string literals with escaped quotes, escaped backslashes and brackets in
  them, and nested brackets of the root's kind, do not end the scan early or late. No other
  prefix of the input is the text of a well-formed array or object, so the result is the
  shortest such prefix.
\<close>

theorem cutAfterJSON_extracts_value:
  assumes "wf_jtext v" and "is_root v"
  shows "cutAfterJSON (text_of v @ rest) = Inr (text_of v) \<and>
         (\<forall>p. wf_jtext p \<and> is_root p \<and> prefix (text_of p) (text_of v @ rest)
              \<longrightarrow> text_of p = text_of v)"
proof
  show "cutAfterJSON (text_of v @ rest) = Inr (text_of v)"
    using assms by (rule cutAfterJSON_wf)
next
  show "\<forall>p. wf_jtext p \<and> is_root p \<and> prefix (text_of p) (text_of v @ rest)
            \<longrightarrow> text_of p = text_of v"
  proof (intro allI impI)
    fix p
    assume p: "wf_jtext p \<and> is_root p \<and> prefix (text_of p) (text_of v @ rest)"
    then obtain sfx where "text_of v @ rest = text_of p @ sfx"
      by (auto simp: prefix_def)
    then have "cutAfterJSON (text_of v @ rest) = Inr (text_of p)"
      using p cutAfterJSON_wf[of p sfx] by simp
    then show "text_of p = text_of v"
      using cutAfterJSON_wf[OF assms, of rest] by simp
  qed
qed

text \<open>
  An array that holds a number, a string with a closing bracket, an escaped quote and an
  escaped backslash in it, a nested array and an object, followed by script text.
\<close>

theorem cutAfterJSON_extracts_value_witness:
  "wf_jtext (TArray ''''
      [Element '' '' (TNumber True ''12'' (Some ''5'') None) '''',
       Element '''' (TString [Plain (CHR '']''), Escape dquote, Escape backslash, Plain (CHR ''['')]) '' '',
       Element '''' (TArray '' '' []) '''',
       Element '''' (TObject '''' [Member '''' [Plain (CHR ''k'')] '''' (Element '''' (TLiteral ''null'') '''')]) ''''])
   \<and> cutAfterJSON (text_of (TArray ''''
      [Element '' '' (TNumber True ''12'' (Some ''5'') None) '''',
       Element '''' (TString [Plain (CHR '']''), Escape dquote, Escape backslash, Plain (CHR ''['')]) '' '',
       Element '''' (TArray '' '' []) '''',
       Element '''' (TObject '''' [Member '''' [Plain (CHR ''k'')] '''' (Element '''' (TLiteral ''null'') '''')]) ''''])
      @ '';var a = [];'')
     = Inr ([CHR ''['', CHR '' '', CHR ''-'', CHR ''1'', CHR ''2'', CHR ''.'', CHR ''5'', CHR '','',
             dquote, CHR '']'', backslash, dquote, backslash, backslash, CHR ''['', dquote, CHR '' '',
             CHR '','', CHR ''['', CHR '' '', CHR '']'', CHR '','',
             CHR ''{'', dquote, CHR ''k'', dquote, CHR '':'', CHR ''n'', CHR ''u'', CHR ''l'', CHR ''l'',
             CHR ''}'', CHR '']''])"
  using cutAfterJSON_extracts_value[of "TArray ''''
      [Element '' '' (TNumber True ''12'' (Some ''5'') None) '''',
       Element '''' (TString [Plain (CHR '']''), Escape dquote, Escape backslash, Plain (CHR ''['')]) '' '',
       Element '''' (TArray '' '' []) '''',
       Element '''' (TObject '''' [Member '''' [Plain (CHR ''k'')] '''' (Element '''' (TLiteral ''null'') '''')]) '''']"
      "'';var a = [];''"]
  by (simp add: is_ws_def is_digits_def string_text_def dquote_def backslash_def)

text \<open>
  C2, as the specification states it, ties \<open>UnsupportedRoot\<close> to the first character that
  is not whitespace. The code reads \<^verbatim>\<open>mixedJson[0]\<close>: on an input with a leading space whose
  first non-whitespace character is an opening bracket it fails with \<open>UnsupportedRoot\<close>.
\<close>

theorem cutAfterJSON_leading_space_counterexample:
  "spec_first_non_whitespace '' [1]'' = Some (CHR ''['') \<and>
   cutAfterJSON '' [1]'' = Inl UnsupportedRoot"
  by (simp add: spec_first_non_whitespace_def cutAfterJSON_def bracket_pair_def)

text \<open>
  C2, amended. For every input string: \<^verbatim>\<open>cutAfterJSON\<close> fails with \<open>UnsupportedRoot\<close> if and
  only if the input does not begin with an opening square bracket or an opening brace at
  its very first character (the empty string included); it fails with
  \<open>UnterminatedStructure\<close> if and only if the root is supported and the scan runs off the
  end of the string, which it only ever does with a nonzero (positive) bracket counter; and
  it fails with no other error.
\<close>

theorem cutAfterJSON_failure_modes:
  "(cutAfterJSON s = Inl UnsupportedRoot \<longleftrightarrow>
      \<not> (\<exists>rest. s = CHR ''['' # rest \<or> s = CHR ''{'' # rest))
   \<and> (cutAfterJSON s = Inl UnterminatedStructure \<longleftrightarrow>
        (\<exists>opn cls n. bracket_pair s = Some (opn, cls)
           \<and> cutAfterJSON_loop opn cls False False 0 0 s = Exhausted n \<and> n \<noteq> 0))
   \<and> (\<forall>opn cls n. bracket_pair s = Some (opn, cls)
         \<and> cutAfterJSON_loop opn cls False False 0 0 s = Exhausted n \<longrightarrow> 0 < n)
   \<and> (\<forall>e. cutAfterJSON s = Inl e \<longrightarrow> e = UnsupportedRoot \<or> e = UnterminatedStructure)"
proof (intro conjI)
  show "cutAfterJSON s = Inl UnsupportedRoot \<longleftrightarrow>
        \<not> (\<exists>rest. s = CHR ''['' # rest \<or> s = CHR ''{'' # rest)"
    by (cases s)
       (auto simp: cutAfterJSON_def bracket_pair_def split: scan_result.splits)
next
  show "cutAfterJSON s = Inl UnterminatedStructure \<longleftrightarrow>
        (\<exists>opn cls n. bracket_pair s = Some (opn, cls)
           \<and> cutAfterJSON_loop opn cls False False 0 0 s = Exhausted n \<and> n \<noteq> 0)"
  proof (cases "bracket_pair s")
    case None
    then show ?thesis by (simp add: cutAfterJSON_def)
  next
    case (Some pr)
    obtain opn cls where pr: "pr = (opn, cls)" by (cases pr)
    show ?thesis
    proof (cases "cutAfterJSON_loop opn cls False False 0 0 s")
      case (Found i)
      with Some pr show ?thesis by (simp add: cutAfterJSON_def)
    next
      case (Exhausted n)
      with Some pr root_exhausted_positive[of s opn cls n] show ?thesis
        by (simp add: cutAfterJSON_def)
    qed
  qed
next
  show "\<forall>opn cls n. bracket_pair s = Some (opn, cls)
         \<and> cutAfterJSON_loop opn cls False False 0 0 s = Exhausted n \<longrightarrow> 0 < n"
    using root_exhausted_positive[of s] by blast
next
  show "\<forall>e. cutAfterJSON s = Inl e \<longrightarrow> e = UnsupportedRoot \<or> e = UnterminatedStructure"
    by (auto simp: cutAfterJSON_def split: option.splits scan_result.splits)
qed

text \<open>An array that is never closed: the scan runs off the end with counter 2.\<close>

theorem cutAfterJSON_failure_modes_witness:
  "bracket_pair ''[1,[2'' = Some (CHR ''['', CHR '']'')
   \<and> cutAfterJSON_loop (CHR ''['') (CHR '']'') False False 0 0 ''[1,[2'' = Exhausted 2
   \<and> cutAfterJSON ''[1,[2'' = Inl UnterminatedStructure
   \<and> cutAfterJSON ''x[1]'' = Inl UnsupportedRoot"
proof -
  have b: "bracket_pair ''[1,[2'' = Some (CHR ''['', CHR '']'')"
    by (simp add: bracket_pair_def)
  have e: "cutAfterJSON_loop (CHR ''['') (CHR '']'') False False 0 0 ''[1,[2'' = Exhausted 2"
    by code_simp
  have u: "cutAfterJSON ''[1,[2'' = Inl UnterminatedStructure"
  proof (rule iffD2[OF cutAfterJSON_failure_modes[of "''[1,[2''", THEN conjunct2, THEN conjunct1]])
    have "(2::int) \<noteq> 0" by simp
    with b e show "\<exists>opn cls n. bracket_pair ''[1,[2'' = Some (opn, cls)
        \<and> cutAfterJSON_loop opn cls False False 0 0 ''[1,[2'' = Exhausted n \<and> n \<noteq> 0"
      by blast
  qed
  have r: "cutAfterJSON ''x[1]'' = Inl UnsupportedRoot"
    by (rule iffD2[OF cutAfterJSON_failure_modes[of "''x[1]''", THEN conjunct1]]) simp
  from b e u r show ?thesis by (intro conjI)
qed

section \<open>Claims about the adapters, the decoder and the filter catalog\<close>

lemma demo_env_simps [simp]:
  "JSON_parse demo_env = demo_parse"
  "parseItem demo_env = (\<lambda>item acc. item)"
  "ToNumber_other demo_env = (\<lambda>v. NaN)"
  "ToString_other demo_env = (\<lambda>v. '''')"
  "URL_resolve demo_env = (\<lambda>u base. Some base)"
  "URL_parse demo_env = (\<lambda>s. Some (''/'' @ s, []))"
  by (simp_all add: demo_env_def)

lemma is_marker_obj: "is_marker x \<Longrightarrow> \<exists>kvs. x = JObj kvs"
  by (cases x) (simp_all add: is_marker_def)

lemma hasOwn_entry:
  assumes "is_marker x \<or> is_grid_item x"
  shows "hasOwnProperty x ''continuationItemRenderer'' = Inr (is_marker x)"
  using assms by (cases x) (auto simp: is_marker_def is_grid_item_def)

lemma filterE_entries:
  assumes "list_all (\<lambda>x. is_marker x \<or> is_grid_item x) es"
  shows "filterE (\<lambda>x. bindE (hasOwnProperty x ''continuationItemRenderer'') (\<lambda>b. Inr (\<not> b))) es
         = Inr (filter (\<lambda>x. \<not> is_marker x) es)"
  using assms by (induction es) (simp_all add: hasOwn_entry)

lemma grid_item_ok:
  assumes "is_grid_item x"
  shows "\<exists>y. grid_item x = Inr y"
proof -
  from assms obtain kvs where x: "x = JObj kvs"
    and t: "truthy (lookup kvs ''richItemRenderer'') \<or> truthy (lookup kvs ''richSectionRenderer'')"
    by (cases x) (auto simp: is_grid_item_def)
  define r where "r = (if truthy (lookup kvs ''richItemRenderer'') then lookup kvs ''richItemRenderer''
                       else lookup kvs ''richSectionRenderer'')"
  from t have "truthy r" by (auto simp: r_def)
  then obtain y where "get_prop r ''content'' = Inr y" by (cases r) auto
  then show ?thesis by (auto simp: grid_item_def x r_def)
qed

lemma mapE_grid_items:
  assumes "list_all is_grid_item xs"
  shows "\<exists>ys. mapE grid_item xs = Inr ys \<and> length ys = length xs"
  using assms
proof (induction xs)
  case Nil
  then show ?case by simp
next
  case (Cons x xs)
  then obtain y ys where "grid_item x = Inr y" "mapE grid_item xs = Inr ys" "length ys = length xs"
    using grid_item_ok by fastforce
  then show ?case by simp
qed

lemma findE_marker:
  assumes "list_all (\<lambda>x. is_marker x \<or> is_grid_item x) es"
  shows "findE (\<lambda>x. hasOwnProperty x ''continuationItemRenderer'') es
         = Inr (case filter is_marker es of [] \<Rightarrow> JUndefined | m # _ \<Rightarrow> m)"
  using assms by (induction es) (simp_all add: hasOwn_entry)

lemma length_filter_not:
  "length (filter (\<lambda>x. \<not> P x) xs) = length xs - length (filter P xs)"
  using sum_length_filter_compl[of P xs] by simp

text \<open>
  C7. For every grid-shaped first-page container with \<open>N\<close> entries of which \<open>M\<close>, 0 or 1,
  are continuation markers, \<^verbatim>\<open>parseWrapper\<close> returns without raising, with exactly \<open>N - M\<close>
  raw items, and with a continuation that is present (neither \<^verbatim>\<open>null\<close> nor \<^verbatim>\<open>undefined\<close>,
  and truthy, which is what the engine tests) exactly when \<open>M = 1\<close>.
\<close>

theorem parseWrapper_grid:
  assumes "grid_shaped primaryContents es"
    and "length (filter is_marker es) \<le> 1"
  shows "\<exists>rawItems cont.
           parseWrapper primaryContents = Inr (JArr rawItems, cont)
           \<and> length rawItems = length es - length (filter is_marker es)
           \<and> ((cont \<noteq> JNull \<and> cont \<noteq> JUndefined) = (length (filter is_marker es) = 1))
           \<and> (truthy cont = (length (filter is_marker es) = 1))"
proof -
  from assms(1) obtain pc rg where pc: "primaryContents = JObj pc"
    and nsl: "\<not> truthy (lookup pc ''sectionListRenderer'')"
    and rg: "lookup pc ''richGridRenderer'' = JObj rg"
    and es: "lookup rg ''contents'' = JArr es"
    and shape: "list_all (\<lambda>x. is_marker x \<or> is_grid_item x) es"
    by (auto simp: grid_shaped_def split: jsval.splits)
  have "list_all is_grid_item (filter (\<lambda>x. \<not> is_marker x) es)"
    using shape by (auto simp: list_all_iff)
  from mapE_grid_items[OF this] obtain rawItems where
    raw: "mapE grid_item (filter (\<lambda>x. \<not> is_marker x) es) = Inr rawItems"
    and len: "length rawItems = length (filter (\<lambda>x. \<not> is_marker x) es)"
    by blast
  define cont where "cont = (case filter is_marker es of [] \<Rightarrow> JUndefined | m # _ \<Rightarrow> m)"
  have pw: "parseWrapper primaryContents = Inr (JArr rawItems, cont)"
    by (simp add: parseWrapper_def pc nsl rg es filterE_entries[OF shape] raw
        findE_marker[OF shape] cont_def)
  have c: "truthy cont = (length (filter is_marker es) = 1)
           \<and> (cont \<noteq> JNull \<and> cont \<noteq> JUndefined) = (length (filter is_marker es) = 1)"
  proof (cases "filter is_marker es")
    case Nil
    then show ?thesis by (simp add: cont_def)
  next
    case (Cons m ms)
    then have "m \<in> set (filter is_marker es)" by simp
    then have "is_marker m" by simp
    then obtain kvs where "m = JObj kvs" using is_marker_obj by blast
    moreover from Cons assms(2) have "ms = []" by simp
    ultimately show ?thesis using Cons by (simp add: cont_def)
  qed
  show ?thesis using pw len c by (simp add: length_filter_not)
qed

text \<open>A grid of two items and one marker: two raw items, and the marker as continuation.\<close>

theorem parseWrapper_grid_witness:
  "grid_shaped (JObj [(''richGridRenderer'',
       JObj [(''contents'', JArr [demo_item ''A'', demo_item ''B'', demo_marker ''T1''])])])
     [demo_item ''A'', demo_item ''B'', demo_marker ''T1'']
   \<and> length (filter is_marker [demo_item ''A'', demo_item ''B'', demo_marker ''T1'']) = 1
   \<and> parseWrapper (JObj [(''richGridRenderer'',
       JObj [(''contents'', JArr [demo_item ''A'', demo_item ''B'', demo_marker ''T1''])])])
     = Inr (JArr [JStr ''A'', JStr ''B''], demo_marker ''T1'')"
proof -
  have g: "grid_shaped (JObj [(''richGridRenderer'',
       JObj [(''contents'', JArr [demo_item ''A'', demo_item ''B'', demo_marker ''T1''])])])
     [demo_item ''A'', demo_item ''B'', demo_marker ''T1'']"
    by (simp add: grid_shaped_def is_marker_def is_grid_item_def demo_item_def demo_marker_def
        lookup_def)
  have m: "length (filter is_marker [demo_item ''A'', demo_item ''B'', demo_marker ''T1'']) = 1"
    by (simp add: is_marker_def demo_item_def demo_marker_def)
  have p: "parseWrapper (JObj [(''richGridRenderer'',
       JObj [(''contents'', JArr [demo_item ''A'', demo_item ''B'', demo_marker ''T1''])])])
     = Inr (JArr [JStr ''A'', JStr ''B''], demo_marker ''T1'')"
    by (simp add: demo_item_def demo_marker_def lookup_def parseWrapper_def grid_item_def)
  from parseWrapper_grid[OF g] m g p show ?thesis by simp
qed

text \<open>
  C5, as stated, covers an envelope that is "present but lacking the inner
  append-continuation-items structure". The code guards the envelope with
  \<^verbatim>\<open>Array.isArray\<close> only: on a response whose \<^verbatim>\<open>onResponseReceivedCommands\<close> is the empty array it
  reads \<^verbatim>\<open>[0].appendContinuationItemsAction\<close> of it and raises a \<^verbatim>\<open>TypeError\<close>.
\<close>

theorem fetchNextPage_empty_commands_counterexample:
  "demo_parse ''{commands:[]}'' = Some (JObj [(''onResponseReceivedCommands'', JArr [])])
   \<and> fst (fetchNextPage demo_env (JStr ''key'') (JStr ''T1'') (JObj []) (JObj []) [''{commands:[]}''])
     = Inl TypeError"
  by (simp add: demo_parse_def doPost_options_def nextPage_def nextPage_items_def
      array_index_def lookup_def)

text \<open>
  C5, amended. For every continuation fetch whose request goes out and whose response
  text decodes to a value other than \<^verbatim>\<open>null\<close> in which \<^verbatim>\<open>onResponseReceivedCommands\<close> is absent
  or is not an array, the fetch returns \<^verbatim>\<open>{ items: [], continuation: null }\<close> and raises no
  error; it leaves the options as the request left them.
\<close>

theorem fetchNextPage_no_envelope:
  assumes "doPost_options options = Inr options0"
    and "JSON_parse env tx = Some response"
    and "get_prop response ''onResponseReceivedCommands'' = Inr commands"
    and "\<not> isArray commands"
  shows "fetchNextPage env key token ctx options (tx # upstream)
         = (Inr \<lparr>continuation = JNull, items = []\<rparr>, options0)"
  using assms by (simp add: nextPage_def)

text \<open>A response that is the empty object.\<close>

theorem fetchNextPage_no_envelope_witness:
  "doPost_options (JObj []) = Inr (JObj [])
   \<and> JSON_parse demo_env ''{}'' = Some (JObj [])
   \<and> get_prop (JObj []) ''onResponseReceivedCommands'' = Inr JUndefined
   \<and> fetchNextPage demo_env (JStr ''key'') (JStr ''T1'') (JObj []) (JObj []) [''{}'']
     = (Inr \<lparr>continuation = JNull, items = []\<rparr>, JObj [])"
proof -
  have a: "doPost_options (JObj []) = Inr (JObj [])"
    by (simp add: doPost_options_def lookup_def)
  have b: "JSON_parse demo_env ''{}'' = Some (JObj [])"
    by (simp add: demo_parse_def)
  have c: "get_prop (JObj []) ''onResponseReceivedCommands'' = Inr JUndefined"
    by (simp add: lookup_def)
  have d: "\<not> isArray JUndefined" by simp
  from fetchNextPage_no_envelope[OF a b c d, of "JStr ''key''" "JStr ''T1''" "JObj []" "[]"] a b c
  show ?thesis by simp
qed

text \<open>
  C6, as stated, promises an empty catalog and no error whenever neither tree position
  yields groups. The code reads both positions without a guard: on a document whose
  results container has no submenu under either spelling, and that has no search header,
  neither position can be read, and the extractor raises a \<^verbatim>\<open>TypeError\<close>.
\<close>

theorem parseFilters_missing_submenu_counterexample:
  "submenu_groups (JObj [(''contents'',
        JObj [(''twoColumnSearchResultsRenderer'',
          JObj [(''primaryContents'',
            JObj [(''sectionListRenderer'', JObj [(''contents'', JArr [])])])])])]) = Inl TypeError
   \<and> popup_groups (JObj [(''contents'',
        JObj [(''twoColumnSearchResultsRenderer'',
          JObj [(''primaryContents'',
            JObj [(''sectionListRenderer'', JObj [(''contents'', JArr [])])])])])]) = Inl TypeError
   \<and> parseFilters demo_env (JObj [(''contents'',
        JObj [(''twoColumnSearchResultsRenderer'',
          JObj [(''primaryContents'',
            JObj [(''sectionListRenderer'', JObj [(''contents'', JArr [])])])])])]) = Inl TypeError"
  by (simp add: parseFilters_def submenu_groups_def popup_groups_def lookup_def)

text \<open>
  C6, amended. For every decoded document in which the inline submenu position can be read
  and holds an empty list of groups, or holds no groups (\<^verbatim>\<open>undefined\<close>) while the search-header
  popup position can be read and holds no groups either (a falsy value or an empty list),
  the extractor returns an empty catalog and raises no error.
\<close>

theorem parseFilters_no_groups:
  assumes "submenu_groups doc = Inr sg"
    and "sg = JArr [] \<or> (sg = JUndefined \<and> popup_groups doc = Inr pg \<and> (\<not> truthy pg \<or> pg = JArr []))"
  shows "parseFilters env doc = Inr []"
  using assms by (auto simp: parseFilters_def)

text \<open>
  The first example page has an inline submenu with an empty list of groups; the second
  document has an inline submenu and a popup dialog that both lack the groups.
\<close>

theorem parseFilters_no_groups_witness:
  "submenu_groups demo_first = Inr (JArr [])
   \<and> parseFilters demo_env demo_first = Inr []
   \<and> submenu_groups demo_no_groups = Inr JUndefined
   \<and> popup_groups demo_no_groups = Inr JUndefined
   \<and> parseFilters demo_env demo_no_groups = Inr []"
proof -
  have a: "submenu_groups demo_first = Inr (JArr [])"
    by (simp add: submenu_groups_def demo_first_def demo_grid_def lookup_def)
  have b: "submenu_groups demo_no_groups = Inr JUndefined"
    by (simp add: submenu_groups_def demo_no_groups_def lookup_def)
  have c: "popup_groups demo_no_groups = Inr JUndefined"
    by (simp add: popup_groups_def demo_no_groups_def lookup_def)
  have "parseFilters demo_env demo_first = Inr []"
    by (rule parseFilters_no_groups[OF a]) simp
  moreover have "parseFilters demo_env demo_no_groups = Inr []"
    by (rule parseFilters_no_groups[OF b, of JUndefined]) (simp add: c)
  ultimately show ?thesis using a b c by simp
qed

lemma jsonAfter_total: "\<exists>v. jsonAfter env haystack left = Inr v"
  by (auto simp: jsonAfter_def split: option.splits sum.splits)

lemma overlay_key_total:
  "options \<noteq> JNull \<Longrightarrow> options \<noteq> JUndefined \<Longrightarrow> \<exists>c. overlay_key options k client = Inr c"
  by (cases options) (auto simp: overlay_key_def)

lemma get_prop_total:
  "v \<noteq> JNull \<Longrightarrow> v \<noteq> JUndefined \<Longrightarrow> \<exists>w. get_prop v k = Inr w"
  by (cases v) auto

text \<open>
  C8. For every response body and every options value other than \<^verbatim>\<open>null\<close> (an options record,
  or none), \<^verbatim>\<open>parseBody\<close> returns a record and raises nothing; the document of the record is
  \<^verbatim>\<open>null\<close> when the anchor is not in the body, when \<^verbatim>\<open>cutAfterJSON\<close> fails on what follows the
  anchor (an unsupported root, a truncated document), and when \<^verbatim>\<open>JSON.parse\<close> rejects the
  text that was cut out; otherwise it is the parsed document.
\<close>

theorem parseBody_never_throws:
  assumes "options \<noteq> JNull"
  shows "\<exists>r. parseBody env body options = Inr r
           \<and> (indexOf body ''var ytInitialData = '' = None \<longrightarrow> json r = JNull)
           \<and> (\<forall>pos e. indexOf body ''var ytInitialData = '' = Some pos
                  \<and> cutAfterJSON (drop (pos + length ''var ytInitialData = '') body) = Inl e
                \<longrightarrow> json r = JNull)
           \<and> (\<forall>pos cut. indexOf body ''var ytInitialData = '' = Some pos
                  \<and> cutAfterJSON (drop (pos + length ''var ytInitialData = '') body) = Inr cut
                  \<and> JSON_parse env cut = None
                \<longrightarrow> json r = JNull)
           \<and> (\<forall>pos cut v. indexOf body ''var ytInitialData = '' = Some pos
                  \<and> cutAfterJSON (drop (pos + length ''var ytInitialData = '') body) = Inr cut
                  \<and> JSON_parse env cut = Some v
                \<longrightarrow> json r = v)"
proof -
  define opts where "opts = (if options = JUndefined then JObj [] else options)"
  have ne: "opts \<noteq> JNull" "opts \<noteq> JUndefined" using assms by (auto simp: opts_def)
  define client0 where "client0 = AList.update ''clientVersion''
     (JStr (if between body (''INNERTUBE_CONTEXT_CLIENT_VERSION'' @ [dquote] @ '':'' @ [dquote]) [dquote] \<noteq> []
            then between body (''INNERTUBE_CONTEXT_CLIENT_VERSION'' @ [dquote] @ '':'' @ [dquote]) [dquote]
            else between body (''innertube_context_client_version'' @ [dquote] @ '':'' @ [dquote]) [dquote]))
     DEFAULT_CONTEXT_client"
  obtain c1 where c1: "overlay_key opts ''gl'' client0 = Inr c1"
    using overlay_key_total[OF ne] by blast
  obtain c2 where c2: "overlay_key opts ''hl'' c1 = Inr c2"
    using overlay_key_total[OF ne] by blast
  obtain c3 where c3: "overlay_key opts ''utcOffsetMinutes'' c2 = Inr c3"
    using overlay_key_total[OF ne] by blast
  obtain ss where ss: "get_prop opts ''safeSearch'' = Inr ss"
    using get_prop_total[OF ne] by blast
  have "\<exists>r. parseBody env body options = Inr r
          \<and> json r = (case jsonAfter env body ''var ytInitialData = '' of Inl e \<Rightarrow> JNull | Inr v \<Rightarrow> v)"
    unfolding parseBody_def Let_def opts_def[symmetric] client0_def[symmetric]
    by (simp add: c1 c2 c3 ss)
  then obtain r where r: "parseBody env body options = Inr r"
    and j: "json r = (case jsonAfter env body ''var ytInitialData = '' of Inl e \<Rightarrow> JNull | Inr v \<Rightarrow> v)"
    by blast
  show ?thesis
    by (rule exI[of _ r]) (auto simp: r j jsonAfter_def)
qed


text \<open>A body without the anchor, and a body whose embedded document is cut short.\<close>

theorem parseBody_never_throws_witness:
  "json (projr (parseBody demo_env ''<html></html>'' (JObj [(''gl'', JStr ''DE'')]))) = JNull
   \<and> \<not> isl (parseBody demo_env ''<html></html>'' (JObj [(''gl'', JStr ''DE'')]))
   \<and> json (projr (parseBody demo_env ''var ytInitialData = {first'' JUndefined)) = JNull
   \<and> \<not> isl (parseBody demo_env ''var ytInitialData = {first'' JUndefined)"
proof -
  have a: "indexOf ''<html></html>'' ''var ytInitialData = '' = None"
    by simp
  have b: "indexOf ''var ytInitialData = {first'' ''var ytInitialData = '' = Some 0"
    by simp
  have c: "cutAfterJSON (drop (0 + length ''var ytInitialData = '') ''var ytInitialData = {first'')
           = Inl UnterminatedStructure"
    by (simp add: cutAfterJSON_def bracket_pair_def loop_Cons dquote_def backslash_def
        del: cutAfterJSON_loop.simps(2))
  have n1: "JObj [(''gl'', JStr ''DE'')] \<noteq> JNull" by simp
  have n2: "JUndefined \<noteq> JNull" by simp
  from parseBody_never_throws[OF n1, of demo_env "''<html></html>''"] a
  have "json (projr (parseBody demo_env ''<html></html>'' (JObj [(''gl'', JStr ''DE'')]))) = JNull
        \<and> \<not> isl (parseBody demo_env ''<html></html>'' (JObj [(''gl'', JStr ''DE'')]))"
    by auto
  moreover from parseBody_never_throws[OF n2, of demo_env "''var ytInitialData = {first''"] b c
  have "json (projr (parseBody demo_env ''var ytInitialData = {first'' JUndefined)) = JNull
        \<and> \<not> isl (parseBody demo_env ''var ytInitialData = {first'' JUndefined)"
    by auto
  ultimately show ?thesis by simp
qed

section \<open>Claims about resuming\<close>

subsection \<open>The errors of a continuation fetch\<close>

lemma raises_only_Inr [simp]: "raises_only E (Inr x)"
  by (simp add: raises_only_def)

lemma raises_only_Inl [simp]: "raises_only E (Inl e) = (e \<in> E)"
  by (simp add: raises_only_def)





















subsection \<open>The validation of a descriptor\<close>







lemma validate_4:
  "continueRequest_validate env (JArr [k, t, c, opts]) =
     (if \<not> (truthy k \<and> typeof k = ''string'') then Inl (InvalidDescriptor ''Invalid apiKey'')
      else if \<not> (truthy t \<and> typeof t = ''string'') then Inl (InvalidDescriptor ''Invalid token'')
      else if \<not> (truthy c \<and> typeof c = ''object'') then Inl (InvalidDescriptor ''Invalid context'')
      else if \<not> (truthy opts \<and> typeof opts = ''object'')
        then Inl (InvalidDescriptor ''Invalid options'')
      else bindE (get_prop opts ''limit'') (\<lambda>limit.
        if limit \<noteq> JNull \<and> \<not> isNaN env limit \<and> isFinite env limit
        then Inl BudgetMismatch
        else bindE (set_prop opts ''pages'' (JNum (Fin 1))) (\<lambda>o1.
             bindE (set_prop o1 ''limit'' (JNum PInf)) (\<lambda>o2.
             Inr (k, t, c, o2)))))"
  by (simp add: continueRequest_validate_def array_index_def cong: if_cong)














section \<open>Claims about the budgets and the order of the items\<close>

subsection \<open>A finite item budget\<close>

lemma lookup_update:
  "lookup (AList.update k v kvs) k' = (if k' = k then v else lookup kvs k')"
  by (simp add: lookup_def update_conv')





text \<open>Options with a finite item budget are an object.\<close>

lemma finite_limit_obj:
  assumes "get_prop options ''limit'' = Inr l" "toNumber env l = Fin K"
  shows "\<exists>kvs. options = JObj kvs \<and> lookup kvs ''limit'' = l"
  using assms by (cases options) auto

lemma doPost_options_obj:
  assumes "doPost_options (JObj kvs) = Inr options0"
  shows "\<exists>kvs0. options0 = JObj kvs0 \<and> lookup kvs0 ''limit'' = lookup kvs ''limit''
           \<and> lookup kvs0 ''pages'' = lookup kvs ''pages''"
  using assms
  by (auto simp: doPost_options_def lookup_update bindE_def split: if_splits sum.splits)

lemma minus_assign_obj:
  "minus_assign env (JObj kvs) k n
   = Inr (JObj (AList.update k (JNum (num_minus (toNumber env (lookup kvs k)) n)) kvs))"
  by (simp add: minus_assign_def)

lemma nextPage_decide_obj:
  "nextPage_decide env key ctx (JObj kvs) parsedItems cont =
     (let o2 = AList.update ''pages'' (JNum (num_minus (toNumber env (lookup kvs ''pages'')) 1))
                (AList.update ''limit''
                   (JNum (num_minus (toNumber env (lookup kvs ''limit'')) (int (length parsedItems))))
                   kvs)
      in case token_of cont of
           Inl e \<Rightarrow> Failed e (JObj o2)
         | Inr nextToken \<Rightarrow>
             if \<not> truthy nextToken
                \<or> num_less (num_minus (toNumber env (lookup kvs ''limit'')) (int (length parsedItems))) (Fin 1)
                \<or> num_less (num_minus (toNumber env (lookup kvs ''pages'')) 1) (Fin 1)
             then Ended \<lparr>continuation =
                           (if truthy nextToken
                               \<and> num_minus (toNumber env (lookup kvs ''limit'')) (int (length parsedItems)) = PInf
                            then JArr [key, nextToken, ctx, JObj o2] else JNull),
                         items = parsedItems\<rparr> (JObj o2)
             else Continue parsedItems nextToken (JObj o2))"
  by (simp add: nextPage_decide_def minus_assign_obj Let_def at_end_def descriptor_def
      lookup_update split: sum.splits)


lemma nextPage_cases:
  assumes "nextPage env key ctx options tx = out"
  shows "(\<exists>e. out = Failed e options)
       \<or> out = Ended \<lparr>continuation = JNull, items = []\<rparr> options
       \<or> (\<exists>commands parsedItems cont.
             nextPage_items env options commands = Inr (parsedItems, cont)
             \<and> out = nextPage_decide env key ctx options parsedItems cont)"
proof (cases "JSON_parse env tx")
  case None
  with assms show ?thesis by (auto simp: nextPage_def)
next
  case (Some response)
  show ?thesis
  proof (cases "get_prop response ''onResponseReceivedCommands''")
    case (Inl e)
    with assms Some show ?thesis by (auto simp: nextPage_def)
  next
    case (Inr commands)
    show ?thesis
    proof (cases commands)
      case (JArr xs)
      show ?thesis
      proof (cases "nextPage_items env options xs")
        case (Inl e)
        with assms Some Inr JArr show ?thesis by (auto simp: nextPage_def)
      next
        case r: (Inr pr)
        obtain parsedItems cont where "pr = (parsedItems, cont)" by (cases pr)
        with assms Some Inr JArr r show ?thesis by (auto simp: nextPage_def)
      qed
    qed (use assms Some Inr in \<open>auto simp: nextPage_def\<close>)
  qed
qed










lemma lookup_assign_other:
  "k \<notin> fst ` set src \<Longrightarrow> lookup (assign tgt src) k = lookup tgt k"
  unfolding assign_def
  by (induction src arbitrary: tgt) (auto simp: lookup_update)

lemma default_limit: "lookup DEFAULT_OPTIONS ''limit'' = JNum (Fin 100)"
  by (simp add: DEFAULT_OPTIONS_def lookup_def)

text \<open>The item budget the normaliser leaves in force.\<close>

lemma normalise_budgets_limit_value:
  "lookup (normalise_budgets env obj) ''limit'' =
     (if \<not> isNaN env (lookup obj ''pages'') \<and> num_less (Fin 0) (toNumber env (lookup obj ''pages''))
      then JNum PInf
      else if isNaN env (lookup obj ''limit'') \<or> num_le (toNumber env (lookup obj ''limit'')) (Fin 0)
      then JNum (Fin 100)
      else lookup obj ''limit'')"
  by (simp add: normalise_budgets_def lookup_update default_limit)








subsection \<open>The order of the items\<close>

lemma fetchNextPage_page_order:
  "fst (fetchNextPage env key token ctx options upstream) = Inr r
   \<Longrightarrow> items r = concat (pages_kept env key ctx options upstream)"
proof (induction upstream arbitrary: token options r)
  case Nil
  then show ?case by (simp split: sum.splits)
next
  case (Cons tx upstream)
  from Cons.prems obtain options0 where d: "doPost_options options = Inr options0"
    by (cases "doPost_options options") auto
  show ?case
  proof (cases "nextPage env key ctx options0 tx")
    case (Failed e st)
    with Cons.prems d show ?thesis by simp
  next
    case (Ended r' st)
    with Cons.prems d show ?thesis by simp
  next
    case (Continue kept tok st)
    obtain out st' where f: "fetchNextPage env key tok ctx st upstream = (out, st')"
      by (cases "fetchNextPage env key tok ctx st upstream")
    with Cons.prems d Continue obtain r' where out: "out = Inr r'"
      and r: "r = r'\<lparr>items := kept @ items r'\<rparr>"
      by (cases out) auto
    from Cons.IH[of tok st r'] f out have "items r' = concat (pages_kept env key ctx st upstream)"
      by simp
    with r d Continue show ?thesis by simp
  qed
qed

lemma fetchSearchResults_retries_page_order:
  "fetchSearchResults_retries env searchString options n upstream = Inr res
   \<Longrightarrow> items res = concat (search_pages_kept env searchString options n upstream)"
proof (induction n arbitrary: upstream)
  case 0
  then show ?case by simp
next
  case (Suc n)
  from Suc.prems obtain opts where c: "checkArgs env searchString options = Inr opts"
    by (cases "checkArgs env searchString options") auto
  from Suc.prems c obtain body rest where u: "upstream = body # rest"
    by (cases upstream) auto
  show ?case
  proof (cases "firstPage env opts body")
    case NoDocument
    with Suc.prems u c have "fetchSearchResults_retries env searchString options n rest = Inr res"
      by simp
    from Suc.IH[OF this] NoDocument u c show ?thesis by simp
  next
    case (FirstFailed e)
    with Suc.prems u c show ?thesis by simp
  next
    case (FirstEnded r)
    with Suc.prems u c show ?thesis by simp
  next
    case (FirstContinue r key tok ctx st)
    with Suc.prems u c obtain nx where
      f: "fst (fetchNextPage env key tok ctx st rest) = Inr nx"
      and r: "res = r\<lparr>items := items r @ items nx, continuation := continuation nx\<rparr>"
      by (auto simp: bindE_def split: sum.splits)
    from fetchNextPage_page_order[OF f] r FirstContinue u c show ?thesis by simp
  qed
qed

lemma concat_page:
  assumes "k < length ps"
  shows "take (length (ps ! k)) (drop (length (concat (take k ps))) (concat ps)) = ps ! k"
proof -
  have "concat ps = concat (take k ps) @ ps ! k @ concat (drop (Suc k) ps)"
    using assms by (metis append_take_drop_id concat.simps(2) concat_append Cons_nth_drop_Suc)
  then show ?thesis by simp
qed

text \<open>
  C9. For every search and every continuation fetch that completes, over every sequence
  of upstream responses, the items of the result are the items kept of the pages, page
  after page in the order the pages were fetched: the items kept of page \<open>k\<close> stand, in
  their order, right after all the items kept of the pages before it, and so before the
  items kept of every later page.
\<close>

theorem items_in_page_order:
  "(fst (fetchNextPage env key token ctx options upstream) = Inr r \<longrightarrow>
      items r = concat (pages_kept env key ctx options upstream)
      \<and> (\<forall>k < length (pages_kept env key ctx options upstream).
            take (length (pages_kept env key ctx options upstream ! k))
              (drop (length (concat (take k (pages_kept env key ctx options upstream)))) (items r))
            = pages_kept env key ctx options upstream ! k))
   \<and> (fetchSearchResults env searchString opts upstream = Inr res \<longrightarrow>
      items res = concat (search_pages_kept env searchString opts 3 upstream)
      \<and> (\<forall>k < length (search_pages_kept env searchString opts 3 upstream).
            take (length (search_pages_kept env searchString opts 3 upstream ! k))
              (drop (length (concat (take k (search_pages_kept env searchString opts 3 upstream))))
                 (items res))
            = search_pages_kept env searchString opts 3 upstream ! k))"
  using fetchNextPage_page_order[of env key token ctx options upstream r]
    fetchSearchResults_retries_page_order[of env searchString opts 3 upstream res]
    concat_page
  by (auto simp: fetchSearchResults_def)


text \<open>
  A continuation fetch over the second and third example pages, and a search with
  \<^verbatim>\<open>{ pages: 3 }\<close> over a body without a document (which is retried) and the three pages.
\<close>

theorem items_in_page_order_witness:
  "pages_kept demo_env (JStr ''key'') (JObj [])
     (JObj [(''limit'', JNum PInf), (''pages'', JNum (Fin 2))]) [''{second}'', ''{third}'']
   = [[JStr ''D'', JStr ''E''], [JStr ''F'', JStr ''G'']]
   \<and> items (projr (fst (fetchNextPage demo_env (JStr ''key'') (JStr ''T1'') (JObj [])
        (JObj [(''limit'', JNum PInf), (''pages'', JNum (Fin 2))]) [''{second}'', ''{third}''])))
     = concat (pages_kept demo_env (JStr ''key'') (JObj [])
         (JObj [(''limit'', JNum PInf), (''pages'', JNum (Fin 2))]) [''{second}'', ''{third}''])
   \<and> items (projr (fst (fetchNextPage demo_env (JStr ''key'') (JStr ''T1'') (JObj [])
        (JObj [(''limit'', JNum PInf), (''pages'', JNum (Fin 2))]) [''{second}'', ''{third}''])))
     = [JStr ''D'', JStr ''E'', JStr ''F'', JStr ''G'']
   \<and> search_pages_kept demo_env (JStr ''cats'') (JObj [(''pages'', JNum (Fin 3))]) 3
        [''<html>'', ''var ytInitialData = {first};'', ''{second}'', ''{third}'']
     = [[JStr ''A'', JStr ''B'', JStr ''C''], [JStr ''D'', JStr ''E''], [JStr ''F'', JStr ''G'']]
   \<and> items (projr (fetchSearchResults demo_env (JStr ''cats'') (JObj [(''pages'', JNum (Fin 3))])
        [''<html>'', ''var ytInitialData = {first};'', ''{second}'', ''{third}'']))
     = [JStr ''A'', JStr ''B'', JStr ''C'', JStr ''D'', JStr ''E'', JStr ''F'', JStr ''G'']"
proof -
  have a: "fst (fetchNextPage demo_env (JStr ''key'') (JStr ''T1'') (JObj [])
             (JObj [(''limit'', JNum PInf), (''pages'', JNum (Fin 2))]) [''{second}'', ''{third}''])
           = Inr \<lparr>continuation = JNull,
                  items = [JStr ''D'', JStr ''E'', JStr ''F'', JStr ''G'']\<rparr>"
    by code_simp
  have b: "fetchSearchResults demo_env (JStr ''cats'') (JObj [(''pages'', JNum (Fin 3))])
             [''<html>'', ''var ytInitialData = {first};'', ''{second}'', ''{third}'']
           = Inr \<lparr>continuation = JNull,
                  items = [JStr ''A'', JStr ''B'', JStr ''C'', JStr ''D'', JStr ''E'',
                           JStr ''F'', JStr ''G''],
                  originalQuery = JStr ''cats'', correctedQuery = JStr ''cats'',
                  results = Fin 7, activeFilters = [], refinements = []\<rparr>"
    by code_simp
  have c: "pages_kept demo_env (JStr ''key'') (JObj [])
             (JObj [(''limit'', JNum PInf), (''pages'', JNum (Fin 2))]) [''{second}'', ''{third}'']
           = [[JStr ''D'', JStr ''E''], [JStr ''F'', JStr ''G'']]"
    by code_simp
  have d: "search_pages_kept demo_env (JStr ''cats'') (JObj [(''pages'', JNum (Fin 3))]) 3
             [''<html>'', ''var ytInitialData = {first};'', ''{second}'', ''{third}'']
           = [[JStr ''A'', JStr ''B'', JStr ''C''], [JStr ''D'', JStr ''E''],
              [JStr ''F'', JStr ''G'']]"
    by code_simp
  note t = items_in_page_order[of demo_env "JStr ''key''" "JStr ''T1''" "JObj []"
      "JObj [(''limit'', JNum PInf), (''pages'', JNum (Fin 2))]" "[''{second}'', ''{third}'']"
      "\<lparr>continuation = JNull, items = [JStr ''D'', JStr ''E'', JStr ''F'', JStr ''G'']\<rparr>"
      "JStr ''cats''" "JObj [(''pages'', JNum (Fin 3))]"
      "\<lparr>continuation = JNull,
        items = [JStr ''A'', JStr ''B'', JStr ''C'', JStr ''D'', JStr ''E'', JStr ''F'', JStr ''G''],
        originalQuery = JStr ''cats'', correctedQuery = JStr ''cats'',
        results = Fin 7, activeFilters = [], refinements = []\<rparr>"]
  from t a
  have "items \<lparr>continuation = JNull, items = [JStr ''D'', JStr ''E'', JStr ''F'', JStr ''G'']\<rparr>
        = concat (pages_kept demo_env (JStr ''key'') (JObj [])
            (JObj [(''limit'', JNum PInf), (''pages'', JNum (Fin 2))]) [''{second}'', ''{third}''])"
    by blast
  then have e: "items (projr (fst (fetchNextPage demo_env (JStr ''key'') (JStr ''T1'') (JObj [])
        (JObj [(''limit'', JNum PInf), (''pages'', JNum (Fin 2))]) [''{second}'', ''{third}''])))
     = concat (pages_kept demo_env (JStr ''key'') (JObj [])
         (JObj [(''limit'', JNum PInf), (''pages'', JNum (Fin 2))]) [''{second}'', ''{third}''])"
    unfolding a by simp
  have f: "items (projr (fst (fetchNextPage demo_env (JStr ''key'') (JStr ''T1'') (JObj [])
        (JObj [(''limit'', JNum PInf), (''pages'', JNum (Fin 2))]) [''{second}'', ''{third}''])))
     = [JStr ''D'', JStr ''E'', JStr ''F'', JStr ''G'']"
    unfolding a by simp
  have g: "items (projr (fetchSearchResults demo_env (JStr ''cats'') (JObj [(''pages'', JNum (Fin 3))])
        [''<html>'', ''var ytInitialData = {first};'', ''{second}'', ''{third}'']))
     = [JStr ''A'', JStr ''B'', JStr ''C'', JStr ''D'', JStr ''E'', JStr ''F'', JStr ''G'']"
    unfolding b by simp
  from c e f d g show ?thesis by (intro conjI)
qed

subsection \<open>The options of a resumed search\<close>

lemma validate_obj:
  assumes "continueRequest_validate env (JArr [key, token, ctx, JObj kvs]) = Inr accepted"
  shows "accepted = (key, token, ctx,
           JObj (AList.update ''limit'' (JNum PInf) (AList.update ''pages'' (JNum (Fin 1)) kvs)))"
  using assms unfolding validate_4
  by (simp split: if_splits)

lemma doPost_options_budgets:
  assumes "lookup kvs ''pages'' = JNum (Fin 1)" and "lookup kvs ''limit'' = JNum PInf"
    and "doPost_options (JObj kvs) = Inr options0"
  shows "\<exists>kvs0. options0 = JObj kvs0 \<and> lookup kvs0 ''pages'' = JNum (Fin 1)
           \<and> lookup kvs0 ''limit'' = JNum PInf"
  using doPost_options_obj[OF assms(3)] assms(1,2) by auto

lemma nextPage_decide_one_page:
  assumes "lookup kvs ''pages'' = JNum (Fin 1)" and "lookup kvs ''limit'' = JNum PInf"
  shows "\<exists>kvs'. lookup kvs' ''pages'' = JNum (Fin 0) \<and> lookup kvs' ''limit'' = JNum PInf
           \<and> ((\<exists>e. nextPage_decide env key ctx (JObj kvs) parsedItems cont = Failed e (JObj kvs'))
              \<or> (\<exists>r. nextPage_decide env key ctx (JObj kvs) parsedItems cont = Ended r (JObj kvs')))"
  unfolding nextPage_decide_obj Let_def
  by (cases "token_of cont") (auto simp: assms lookup_update)

lemma nextPage_one_page:
  assumes "lookup kvs ''pages'' = JNum (Fin 1)" and "lookup kvs ''limit'' = JNum PInf"
    and "nextPage env key ctx (JObj kvs) tx = out"
  shows "(\<exists>e st. out = Failed e st)
       \<or> out = Ended \<lparr>continuation = JNull, items = []\<rparr> (JObj kvs)
       \<or> (\<exists>r kvs'. out = Ended r (JObj kvs')
             \<and> lookup kvs' ''pages'' = JNum (Fin 0) \<and> lookup kvs' ''limit'' = JNum PInf)"
proof -
  from nextPage_cases[OF assms(3)] consider
      e where "out = Failed e (JObj kvs)"
    | "out = Ended \<lparr>continuation = JNull, items = []\<rparr> (JObj kvs)"
    | parsedItems cont where
        "out = nextPage_decide env key ctx (JObj kvs) parsedItems cont"
    by auto
  then show ?thesis
  proof cases
    case 3
    from nextPage_decide_one_page[OF assms(1,2), of env key ctx parsedItems cont] 3
    show ?thesis by auto
  qed auto
qed

lemma fetchNextPage_one_page:
  assumes "lookup kvs ''pages'' = JNum (Fin 1)" and "lookup kvs ''limit'' = JNum PInf"
    and "fetchNextPage env key token ctx (JObj kvs) upstream = (Inr r, st)"
    and "items r \<noteq> [] \<or> continuation r \<noteq> JNull"
  shows "\<exists>kvs'. st = JObj kvs' \<and> lookup kvs' ''pages'' = JNum (Fin 0)
           \<and> lookup kvs' ''limit'' = JNum PInf"
proof (cases upstream)
  case Nil
  with assms(3) show ?thesis by (simp split: sum.splits)
next
  case (Cons tx rest)
  from assms(3) Cons obtain options0 where d: "doPost_options (JObj kvs) = Inr options0"
    by (cases "doPost_options (JObj kvs)") auto
  from doPost_options_budgets[OF assms(1,2) d] obtain kvs0 where o: "options0 = JObj kvs0"
    and b: "lookup kvs0 ''pages'' = JNum (Fin 1)" "lookup kvs0 ''limit'' = JNum PInf"
    by auto
  from nextPage_one_page[OF b, of env key ctx tx] consider
      e s where "nextPage env key ctx (JObj kvs0) tx = Failed e s"
    | "nextPage env key ctx (JObj kvs0) tx = Ended \<lparr>continuation = JNull, items = []\<rparr> (JObj kvs0)"
    | r' kvs' where "nextPage env key ctx (JObj kvs0) tx = Ended r' (JObj kvs')"
        "lookup kvs' ''pages'' = JNum (Fin 0)" "lookup kvs' ''limit'' = JNum PInf"
    by blast
  then show ?thesis
  proof cases
    case 1
    with assms(3) Cons d o show ?thesis by simp
  next
    case 2
    with assms(3) Cons d o have "r = \<lparr>continuation = JNull, items = []\<rparr>" by simp
    with assms(4) show ?thesis by simp
  next
    case 3
    with assms(3) Cons d o have "st = JObj kvs'" by simp
    with 3 show ?thesis by simp
  qed
qed

text \<open>
  C10, as stated, concludes that a resume never leaves the caller's descriptor unchanged.
  The engine emits a descriptor when the page budget is used up and the item budget is
  unbounded; on such options the validation sets the page budget to 1, the page that is
  fetched takes it back to 0, and the options end as they were.
\<close>

theorem continueRequest_same_options_counterexample:
  "continueRequest demo_env
     (JArr [JStr ''key'', JStr ''T1'', JObj [],
            JObj [(''limit'', JNum PInf), (''pages'', JNum (Fin 0))]]) [''{second}'']
   = (Inr \<lparr>continuation =
             JArr [JStr ''key'', JStr ''T2'', JObj [],
                   JObj [(''limit'', JNum PInf), (''pages'', JNum (Fin 0))]],
           items = [JStr ''D'', JStr ''E'']\<rparr>,
      Some (JObj [(''limit'', JNum PInf), (''pages'', JNum (Fin 0))]))"
  by code_simp

text \<open>
  C10, amended. For every descriptor with an options record that the validation of
  \<^verbatim>\<open>continueRequest\<close> accepts: the validation rewrites the caller's options in place, the page
  budget to 1 and the item budget to unbounded, and no other field; the options then
  differ from what the caller supplied unless the two budgets were 1 and unbounded
  already; the continuation fetch works on these options, and the caller's options end in
  the state the fetch leaves them in; when the resume returns an item or a descriptor, that
  state has the page budget 0 and the item budget unbounded (so it can equal what the
  caller supplied).
\<close>

theorem continueRequest_rewrites_budgets:
  assumes "continueRequest_validate env (JArr [key, token, ctx, JObj kvs]) = Inr accepted"
  shows "accepted = (key, token, ctx,
           JObj (AList.update ''limit'' (JNum PInf) (AList.update ''pages'' (JNum (Fin 1)) kvs)))
       \<and> lookup (AList.update ''limit'' (JNum PInf) (AList.update ''pages'' (JNum (Fin 1)) kvs))
           ''pages'' = JNum (Fin 1)
       \<and> lookup (AList.update ''limit'' (JNum PInf) (AList.update ''pages'' (JNum (Fin 1)) kvs))
           ''limit'' = JNum PInf
       \<and> (\<forall>k. k \<noteq> ''pages'' \<and> k \<noteq> ''limit'' \<longrightarrow>
            lookup (AList.update ''limit'' (JNum PInf) (AList.update ''pages'' (JNum (Fin 1)) kvs)) k
            = lookup kvs k)
       \<and> (lookup kvs ''pages'' \<noteq> JNum (Fin 1) \<or> lookup kvs ''limit'' \<noteq> JNum PInf \<longrightarrow>
            AList.update ''limit'' (JNum PInf) (AList.update ''pages'' (JNum (Fin 1)) kvs) \<noteq> kvs)
       \<and> continueRequest env (JArr [key, token, ctx, JObj kvs]) upstream
         = (case fetchNextPage env key token ctx
                  (JObj (AList.update ''limit'' (JNum PInf)
                           (AList.update ''pages'' (JNum (Fin 1)) kvs))) upstream of
              (outcome, st) \<Rightarrow> (outcome, Some st))
       \<and> (\<forall>r. fst (continueRequest env (JArr [key, token, ctx, JObj kvs]) upstream) = Inr r
               \<and> (items r \<noteq> [] \<or> continuation r \<noteq> JNull) \<longrightarrow>
            (\<exists>kvs'. snd (continueRequest env (JArr [key, token, ctx, JObj kvs]) upstream)
                      = Some (JObj kvs')
                \<and> lookup kvs' ''pages'' = JNum (Fin 0) \<and> lookup kvs' ''limit'' = JNum PInf))"
proof -
  define kvs1 where "kvs1 = AList.update ''limit'' (JNum PInf) (AList.update ''pages'' (JNum (Fin 1)) kvs)"
  have a: "accepted = (key, token, ctx, JObj kvs1)"
    unfolding kvs1_def by (rule validate_obj[OF assms])
  have p: "lookup kvs1 ''pages'' = JNum (Fin 1)" and l: "lookup kvs1 ''limit'' = JNum PInf"
    by (simp_all add: kvs1_def lookup_update)
  have f: "\<forall>k. k \<noteq> ''pages'' \<and> k \<noteq> ''limit'' \<longrightarrow> lookup kvs1 k = lookup kvs k"
    by (simp add: kvs1_def lookup_update)
  have n: "lookup kvs ''pages'' \<noteq> JNum (Fin 1) \<or> lookup kvs ''limit'' \<noteq> JNum PInf \<longrightarrow> kvs1 \<noteq> kvs"
    using p l by auto
  have c: "continueRequest env (JArr [key, token, ctx, JObj kvs]) upstream
         = (case fetchNextPage env key token ctx (JObj kvs1) upstream of
              (outcome, st) \<Rightarrow> (outcome, Some st))"
    using assms a by (simp add: continueRequest_def)
  have d: "\<forall>r. fst (continueRequest env (JArr [key, token, ctx, JObj kvs]) upstream) = Inr r
               \<and> (items r \<noteq> [] \<or> continuation r \<noteq> JNull) \<longrightarrow>
            (\<exists>kvs'. snd (continueRequest env (JArr [key, token, ctx, JObj kvs]) upstream)
                      = Some (JObj kvs')
                \<and> lookup kvs' ''pages'' = JNum (Fin 0) \<and> lookup kvs' ''limit'' = JNum PInf)"
  proof (intro allI impI)
    fix r
    assume h: "fst (continueRequest env (JArr [key, token, ctx, JObj kvs]) upstream) = Inr r
               \<and> (items r \<noteq> [] \<or> continuation r \<noteq> JNull)"
    obtain out st where g: "fetchNextPage env key token ctx (JObj kvs1) upstream = (out, st)"
      by (cases "fetchNextPage env key token ctx (JObj kvs1) upstream")
    with h c have "out = Inr r" by simp
    with g have "fetchNextPage env key token ctx (JObj kvs1) upstream = (Inr r, st)" by simp
    from fetchNextPage_one_page[OF p l this] h obtain kvs' where
      "st = JObj kvs'" "lookup kvs' ''pages'' = JNum (Fin 0)" "lookup kvs' ''limit'' = JNum PInf"
      by blast
    with c g show "\<exists>kvs'. snd (continueRequest env (JArr [key, token, ctx, JObj kvs]) upstream)
                      = Some (JObj kvs')
                \<and> lookup kvs' ''pages'' = JNum (Fin 0) \<and> lookup kvs' ''limit'' = JNum PInf"
      by simp
  qed
  from a p l f n c d show ?thesis unfolding kvs1_def by (intro conjI)
qed


text \<open>
  A descriptor as it is read back from JSON, where the unbounded item budget has become
  \<^verbatim>\<open>null\<close>, resumed over the second example page.
\<close>

theorem continueRequest_rewrites_budgets_witness:
  "continueRequest_validate demo_env
     (JArr [JStr ''key'', JStr ''T1'', JObj [],
            JObj [(''limit'', JNull), (''pages'', JNum (Fin 0)), (''gl'', JStr ''DE'')]])
   = Inr (JStr ''key'', JStr ''T1'', JObj [],
          JObj [(''limit'', JNum PInf), (''pages'', JNum (Fin 1)), (''gl'', JStr ''DE'')])
   \<and> [(''limit'', JNum PInf), (''pages'', JNum (Fin 1)), (''gl'', JStr ''DE'')]
     \<noteq> [(''limit'', JNull), (''pages'', JNum (Fin 0)), (''gl'', JStr ''DE'')]
   \<and> continueRequest demo_env
        (JArr [JStr ''key'', JStr ''T1'', JObj [],
               JObj [(''limit'', JNull), (''pages'', JNum (Fin 0)), (''gl'', JStr ''DE'')]])
        [''{second}'']
     = (Inr \<lparr>continuation =
               JArr [JStr ''key'', JStr ''T2'', JObj [],
                     JObj [(''limit'', JNum PInf), (''pages'', JNum (Fin 0)),
                           (''gl'', JStr ''DE'')]],
             items = [JStr ''D'', JStr ''E'']\<rparr>,
        Some (JObj [(''limit'', JNum PInf), (''pages'', JNum (Fin 0)), (''gl'', JStr ''DE'')]))"
proof -
  have a: "continueRequest_validate demo_env
     (JArr [JStr ''key'', JStr ''T1'', JObj [],
            JObj [(''limit'', JNull), (''pages'', JNum (Fin 0)), (''gl'', JStr ''DE'')]])
   = Inr (JStr ''key'', JStr ''T1'', JObj [],
          JObj [(''limit'', JNum PInf), (''pages'', JNum (Fin 1)), (''gl'', JStr ''DE'')])"
    by code_simp
  have b: "fetchNextPage demo_env (JStr ''key'') (JStr ''T1'') (JObj [])
             (JObj [(''limit'', JNum PInf), (''pages'', JNum (Fin 1)), (''gl'', JStr ''DE'')])
             [''{second}'']
           = (Inr \<lparr>continuation =
                     JArr [JStr ''key'', JStr ''T2'', JObj [],
                           JObj [(''limit'', JNum PInf), (''pages'', JNum (Fin 0)),
                                 (''gl'', JStr ''DE'')]],
                   items = [JStr ''D'', JStr ''E'']\<rparr>,
              JObj [(''limit'', JNum PInf), (''pages'', JNum (Fin 0)), (''gl'', JStr ''DE'')])"
    by code_simp
  have c: "AList.update ''limit'' (JNum PInf) (AList.update ''pages'' (JNum (Fin 1))
             [(''limit'', JNull), (''pages'', JNum (Fin 0)), (''gl'', JStr ''DE'')])
           = [(''limit'', JNum PInf), (''pages'', JNum (Fin 1)), (''gl'', JStr ''DE'')]"
    by simp
  have d: "lookup [(''limit'', JNull), (''pages'', JNum (Fin 0)), (''gl'', JStr ''DE'')] ''pages''
           \<noteq> JNum (Fin 1)"
    by (simp add: lookup_def)
  note t = continueRequest_rewrites_budgets[OF a, of "[''{second}'']", unfolded c]
  from t d have e: "[(''limit'', JNum PInf), (''pages'', JNum (Fin 1)), (''gl'', JStr ''DE'')]
     \<noteq> [(''limit'', JNull), (''pages'', JNum (Fin 0)), (''gl'', JStr ''DE'')]"
    by blast
  from t have "continueRequest demo_env
        (JArr [JStr ''key'', JStr ''T1'', JObj [],
               JObj [(''limit'', JNull), (''pages'', JNum (Fin 0)), (''gl'', JStr ''DE'')]])
        [''{second}'']
     = (case fetchNextPage demo_env (JStr ''key'') (JStr ''T1'') (JObj [])
               (JObj [(''limit'', JNum PInf), (''pages'', JNum (Fin 1)), (''gl'', JStr ''DE'')])
               [''{second}''] of
          (outcome, st) \<Rightarrow> (outcome, Some st))"
    by blast
  then have f: "continueRequest demo_env
        (JArr [JStr ''key'', JStr ''T1'', JObj [],
               JObj [(''limit'', JNull), (''pages'', JNum (Fin 0)), (''gl'', JStr ''DE'')]])
        [''{second}'']
     = (Inr \<lparr>continuation =
               JArr [JStr ''key'', JStr ''T2'', JObj [],
                     JObj [(''limit'', JNum PInf), (''pages'', JNum (Fin 0)),
                           (''gl'', JStr ''DE'')]],
             items = [JStr ''D'', JStr ''E'']\<rparr>,
        Some (JObj [(''limit'', JNum PInf), (''pages'', JNum (Fin 0)), (''gl'', JStr ''DE'')]))"
    unfolding b by simp
  from a e f show ?thesis by (intro conjI)
qed

end
